theory Spec2Isabelle
  imports Complex_Main
begin

section \<open>The agent-conversation tab of tabs/tab\_agent\_convo.py\<close>

text \<open>
  A shallow embedding of class \<open>AgentConversationTab\<close>: the rating ledger
  (\<open>rate_agent_response\<close>), the reply classifier (\<open>evaluate_response\<close>), the remote
  call with its retry loop (\<open>call_gemini_api\<close>), the persistence of a discussion
  (\<open>save_discussion_data_db\<close>), the conversation generator
  (\<open>joint_conversation_with_selected_agents\<close>) and the UI callback that starts it
  (\<open>process_input_custom_agents\<close>).

  Python strings are \<open>string\<close>s of bytes: a character outside ASCII stands as its UTF-8
  bytes. Python's unbounded integers are \<open>int\<close>; a loop index of \<open>range\<close> is a \<open>nat\<close>.
  Exceptions are values of \<open>py_error\<close>; a function that can raise returns
  \<open>py_error + 'a\<close>. Calls of \<open>logging\<close> are left out: they change nothing that the
  functions below read.
\<close>

subsection \<open>Exceptions\<close>

datatype py_error = ZeroDivisionError | IndexError | KeyError | AttributeError | SqliteError

subsection \<open>Strings\<close>

text \<open>\<open>str(n)\<close> for an integer: decimal digits, a minus sign for a negative number.\<close>

definition digit_char :: "nat \<Rightarrow> char" where
  "digit_char d = ''0123456789'' ! d"

fun str_nat :: "nat \<Rightarrow> string" where
  "str_nat n = (if n < 10 then [digit_char n] else str_nat (n div 10) @ [digit_char (n mod 10)])"

definition str_int :: "int \<Rightarrow> string" where
  "str_int k = (if k < 0 then CHR ''-'' # str_nat (nat (- k)) else str_nat (nat k))"

text \<open>\<open>needle in hay\<close> for two strings: \<open>needle\<close> occurs as a contiguous block.\<close>

fun contains :: "string \<Rightarrow> string \<Rightarrow> bool" where
  "contains needle [] = (needle = [])"
| "contains needle (c # cs) = (take (length needle) (c # cs) = needle \<or> contains needle cs)"

text \<open>
  \<open>str.lower()\<close> on the ASCII letters; the bytes of a character outside ASCII are
  kept. Both markers searched for below are ASCII.
\<close>

definition lower_char :: "char \<Rightarrow> char" where
  "lower_char c =
     (case map_of (zip ''ABCDEFGHIJKLMNOPQRSTUVWXYZ'' ''abcdefghijklmnopqrstuvwxyz'') c of
        Some l \<Rightarrow> l
      | None \<Rightarrow> c)"

definition lower :: "string \<Rightarrow> string" where
  "lower s = map lower_char s"

subsection \<open>evaluate\_response\<close>

definition evaluate_response :: "string \<Rightarrow> string" where
  "evaluate_response response =
     (let resp_l = lower response in
      if contains ''wiederhole mich'' resp_l then ''schlechte antwort''
      else if contains ''neue perspektive'' resp_l then ''gute antwort''
      else ''neutral'')"

subsection \<open>The remote service and the world a run acts on\<close>

text \<open>
  One call of \<open>client.models.generate_content\<close> ends in one of three ways: it returns a
  response whose \<open>text\<close> is absent (\<open>None\<close>) or a string, it raises the package's API
  error (class \<open>APIError\<close> of \<open>google.genai.errors\<close>) with an HTTP status and a message,
  or it raises some other exception with a message.
  The service is a parameter \<open>remote\<close>: the outcome of the request with a given number
  (counted from 0 over the whole run) and prompt.
\<close>

datatype api_outcome =
    Response "string option"
  | APIError int string
  | OtherException string

type_synonym remote = "nat \<Rightarrow> string \<Rightarrow> api_outcome"

text \<open>
  The row that \<open>save_discussion_data_db\<close> inserts, and how the database behaves:
  \<open>sqlite3.connect\<close> may raise, \<open>execute\<close>/\<open>commit\<close> may raise, or both work.
\<close>

record message =
  role :: string
  content :: string

record db_row =
  row_discussion_id :: string
  row_topic :: string
  row_agents :: "string list"
  row_chat_history :: "message list"
  row_summary :: string
  row_user :: "string option"

datatype db_env = ConnectRaises | ExecuteRaises | DbWorks

text \<open>
  The effects of a run: the prompts sent to the service in order, the arguments of
  \<open>time.sleep\<close> in order, and the rows of table \<open>discussions\<close>.
\<close>

record world =
  requests :: "string list"
  sleeps :: "int list"
  discussions :: "db_row list"

definition sleep :: "int \<Rightarrow> world \<Rightarrow> world" where
  "sleep secs w = w\<lparr>sleeps := sleeps w @ [secs]\<rparr>"

definition generate_content :: "remote \<Rightarrow> string \<Rightarrow> world \<Rightarrow> api_outcome \<times> world" where
  "generate_content rem prompt w =
     (rem (length (requests w)) prompt, w\<lparr>requests := requests w @ [prompt]\<rparr>)"

subsection \<open>call\_gemini\_api\<close>

definition api_sleep_seconds :: int where
  "api_sleep_seconds = 10"

definition api_max_retries :: nat where
  "api_max_retries = 3"

definition msg_empty :: string where
  "msg_empty = ''Leere Antwort von Gemini API.''"

definition msg_rate_limit :: string where
  "msg_rate_limit =
     ''API Rate Limit erreicht nach mehreren Versuchen. Bitte sp'' @ [CHR 0xC3, CHR 0xA4]
       @ ''ter erneut versuchen.''"

definition msg_overloaded :: string where
  "msg_overloaded =
     ''Gemini API Server '' @ [CHR 0xC3, CHR 0xBC] @ ''berlastet nach mehreren Versuchen.''"

definition msg_auth :: string where
  "msg_auth =
     ''Authentifizierungsfehler bei der Gemini API. '' @ [CHR 0xC3, CHR 0x9C]
       @ ''berpr'' @ [CHR 0xC3, CHR 0xBC] @ ''fen Sie den API-Schl'' @ [CHR 0xC3, CHR 0xBC]
       @ ''ssel.''"

definition msg_unexpected :: "string \<Rightarrow> string" where
  "msg_unexpected err_s =
     ''Unerwarteter Fehler bei Gemini API Aufruf nach mehreren Versuchen: '' @ err_s"

definition msg_general :: "string \<Rightarrow> string" where
  "msg_general err_s = ''Fehler bei Gemini API Aufruf: '' @ err_s"

definition msg_unknown :: string where
  "msg_unknown = ''Unbekannter Fehler nach mehreren API-Versuchen.''"

text \<open>
  The handler of line 265 is \<open>except genai.APIError as e\<close>, and line 267 reads
  \<open>e.status_code\<close>. Whether these names resolve is a fact of the imported package, which
  is not part of this repository, so the loop takes it as a parameter. Python evaluates
  the expression of an \<open>except\<close> clause only when an exception reaches the clause; an
  \<open>AttributeError\<close> raised by that evaluation, or in the body of the handler, leaves the
  \<open>try\<close> statement, and the later clause \<open>except Exception\<close> does not see it.

  In package \<open>google-genai\<close>, which \<open>from google import genai\<close> imports, the class is
  \<open>google.genai.errors.APIError\<close>: module \<open>google.genai\<close> has no attribute \<open>APIError\<close>,
  and the status of the error is its attribute \<open>code\<close>, not \<open>status_code\<close>.
\<close>

record genai_lib =
  exports_APIError :: bool
  error_has_status_code :: bool

definition google_genai :: genai_lib where
  "google_genai = \<lparr>exports_APIError = False, error_has_status_code = False\<rparr>"

text \<open>
  The body of \<open>for attempt in range(self.api_max_retries + 1)\<close>: the attempts still to
  make, the current \<open>retry_delay\<close>, the world. The result is the exception that leaves the
  function, or the value stored under \<open>"response"\<close> in the returned dictionary.
\<close>

fun attempts ::
  "genai_lib \<Rightarrow> remote \<Rightarrow> string \<Rightarrow> nat list \<Rightarrow> int \<Rightarrow> world \<Rightarrow> (py_error + string) \<times> world" where
  "attempts lib rem prompt [] retry_delay w = (Inr msg_unknown, w)"
| "attempts lib rem prompt (attempt # rest) retry_delay w =
     (case generate_content rem prompt w of
        (Response text, w1) \<Rightarrow>
          (let w2 = sleep api_sleep_seconds w1 in
           case text of
             None \<Rightarrow> (Inr msg_empty, w2)
           | Some t \<Rightarrow> if t = [] then (Inr msg_empty, w2) else (Inr t, w2))
      | (APIError status_code err_s, w1) \<Rightarrow>
          if \<not> exports_APIError lib then (Inl AttributeError, w1)
          else if \<not> error_has_status_code lib then (Inl AttributeError, w1)
          else if status_code = 429 then
            (if attempt < api_max_retries
             then attempts lib rem prompt rest (retry_delay * 2) (sleep (retry_delay * 2) w1)
             else (Inr msg_rate_limit, w1))
          else if status_code = 503 then
            (if attempt < api_max_retries
             then attempts lib rem prompt rest retry_delay (sleep retry_delay w1)
             else (Inr msg_overloaded, w1))
          else if status_code = 401 then (Inr msg_auth, w1)
          else
            (if attempt < api_max_retries
             then attempts lib rem prompt rest retry_delay (sleep retry_delay w1)
             else (Inr (msg_unexpected err_s), w1))
      | (OtherException err_s, w1) \<Rightarrow>
          if \<not> exports_APIError lib then (Inl AttributeError, w1)
          else (Inr (msg_general err_s), w1))"

definition call_gemini_api_with ::
  "genai_lib \<Rightarrow> remote \<Rightarrow> string \<Rightarrow> world \<Rightarrow> (py_error + string) \<times> world" where
  "call_gemini_api_with lib rem prompt w =
     attempts lib rem prompt [0..<api_max_retries + 1] api_sleep_seconds w"

text \<open>The method as the program runs it, with the package it imports.\<close>

definition call_gemini_api :: "remote \<Rightarrow> string \<Rightarrow> world \<Rightarrow> (py_error + string) \<times> world" where
  "call_gemini_api rem prompt w = call_gemini_api_with google_genai rem prompt w"

subsection \<open>rate\_agent\_response\<close>

text \<open>
  \<open>self.discussion_ratings\<close> is \<open>defaultdict(lambda: defaultdict(dict), load_rating_data())\<close>:
  looking up a missing \<open>discussion_id\<close> creates a \<open>defaultdict(dict)\<close>, in which looking
  up a missing iteration creates \<open>{}\<close>. A value that \<open>json.load\<close> read from the rating
  file is a plain \<open>dict\<close>, in which looking up a missing key raises \<open>KeyError\<close>; field
  \<open>autoviv\<close> tells the two apart. A key of a Python dictionary is an integer or a string
  (\<open>1\<close> and \<open>"1"\<close> are different keys; the keys \<open>json.load\<close> reads are strings).
\<close>

datatype dict_key = IntKey int | StrKey string

record counters =
  upvotes :: int
  downvotes :: int

record iteration_ratings =
  autoviv :: bool
  by_iteration :: "dict_key \<rightharpoonup> (string \<rightharpoonup> counters)"

type_synonym ledger = "string \<rightharpoonup> iteration_ratings"

text \<open>
  The tab's ledger in memory and the document last written to \<open>rating_data.json\<close>
  (\<open>None\<close>: nothing written yet). \<open>save_json_data\<close> catches \<open>IOError\<close>: with \<open>io_ok = False\<close>
  the write is a logged no-op.
\<close>

record tab_state =
  discussion_ratings :: ledger
  rating_file :: "ledger option"

definition save_rating_data :: "bool \<Rightarrow> ledger \<Rightarrow> tab_state \<Rightarrow> tab_state" where
  "save_rating_data io_ok rating_data tab =
     (if io_ok then tab\<lparr>rating_file := Some rating_data\<rparr> else tab)"

definition rate_agent_response ::
  "bool \<Rightarrow> string \<Rightarrow> int \<Rightarrow> string \<Rightarrow> string \<Rightarrow> tab_state \<Rightarrow> py_error + tab_state" where
  "rate_agent_response io_ok discussion_id iteration agent_name rating_type tab =
     (let ratings = discussion_ratings tab;
          d = (case ratings discussion_id of
                 None \<Rightarrow> \<lparr>autoviv = True, by_iteration = Map.empty\<rparr>
               | Some d \<Rightarrow> d)
      in if by_iteration d (IntKey iteration) = None \<and> \<not> autoviv d then Inl KeyError
         else
           let agents = (case by_iteration d (IntKey iteration) of
                           None \<Rightarrow> Map.empty
                         | Some a \<Rightarrow> a);
               c = (case agents agent_name of
                      None \<Rightarrow> \<lparr>upvotes = 0, downvotes = 0\<rparr>
                    | Some c \<Rightarrow> c);
               c' = (if rating_type = ''upvote'' then c\<lparr>upvotes := upvotes c + 1\<rparr>
                     else if rating_type = ''downvote'' then c\<lparr>downvotes := downvotes c + 1\<rparr>
                     else c);
               ratings' = ratings(discussion_id \<mapsto>
                 d\<lparr>by_iteration := (by_iteration d)(IntKey iteration \<mapsto> agents(agent_name \<mapsto> c'))\<rparr>)
           in Inr (save_rating_data io_ok ratings' (tab\<lparr>discussion_ratings := ratings'\<rparr>)))"

text \<open>The counters stored for a key, \<open>None\<close> when the ledger has no entry for it.\<close>

definition rating_of :: "ledger \<Rightarrow> string \<Rightarrow> int \<Rightarrow> string \<Rightarrow> counters option" where
  "rating_of ratings discussion_id iteration agent_name =
     (case ratings discussion_id of
        None \<Rightarrow> None
      | Some d \<Rightarrow>
          (case by_iteration d (IntKey iteration) of
             None \<Rightarrow> None
           | Some agents \<Rightarrow> agents agent_name))"

subsection \<open>save\_discussion\_data\_db\<close>

text \<open>
  \<open>sqlite3.connect\<close> stands before the \<open>try\<close>: what it raises leaves the function.
  An error of \<open>execute\<close> or \<open>commit\<close> is caught, logged and rolled back; column
  \<open>discussion_id\<close> is the primary key, so a second row with the same id is such an error.
\<close>

definition save_discussion_data_db ::
  "db_env \<Rightarrow> string \<Rightarrow> string \<Rightarrow> string list \<Rightarrow> message list \<Rightarrow> string \<Rightarrow> string option
     \<Rightarrow> world \<Rightarrow> py_error + world" where
  "save_discussion_data_db db discussion_id topic agents history summary user w =
     (case db of
        ConnectRaises \<Rightarrow> Inl SqliteError
      | ExecuteRaises \<Rightarrow> Inr w
      | DbWorks \<Rightarrow>
          if discussion_id \<in> set (map row_discussion_id (discussions w)) then Inr w
          else Inr (w\<lparr>discussions := discussions w @
                 [\<lparr>row_discussion_id = discussion_id, row_topic = topic, row_agents = agents,
                   row_chat_history = history, row_summary = summary, row_user = user\<rparr>]\<rparr>))"

subsection \<open>joint\_conversation\_with\_selected\_agents\<close>

record agent =
  name :: string
  personality :: string
  instruction :: string

text \<open>
  The arguments of the generator, apart from \<open>chat_history\<close>. An agent is a dictionary with
  the keys \<open>name\<close>, \<open>personality\<close> and \<open>instruction\<close>, as the callback builds it.
  \<open>iterations\<close> is an integer (\<open>range\<close> accepts nothing else). \<open>discussion_id\<close> is the
  id after lines 314 and 315 have replaced \<open>None\<close> by the timestamp; the callback never
  passes \<open>None\<close> (\<open>default_id\<close> below is its lines 581 and 582).
\<close>

record conv_args =
  conversation_topic :: string
  selected_agents :: "agent list"
  iterations :: int
  expertise_level :: string
  language :: string
  user_state :: "string option"
  discussion_id :: string

text \<open>One element of the generator's output: the tuple of a \<open>yield\<close>.\<close>

record yielded =
  y_chat_history :: "message list"
  y_text :: string
  y_discussion_id :: string
  y_iteration :: "int option"
  y_agent_name :: "string option"

text \<open>
  The local variables that outlive an iteration, the world, and the tuples yielded so far
  (the consumer pulls every element: the run is not abandoned).
\<close>

record run_state =
  chat_history :: "message list"
  agent_outputs :: "string list"
  topic_changed :: bool
  world_of :: world
  emitted :: "yielded list"

definition nl :: string where
  "nl = [CHR 0x0A]"

definition quote :: string where
  "quote = [CHR 0x27]"

definition uuml :: string where
  "uuml = [CHR 0xC3, CHR 0xBC]"

definition auml :: string where
  "auml = [CHR 0xC3, CHR 0xA4]"

definition personality_directive :: "string \<Rightarrow> string" where
  "personality_directive current_personality =
     (if current_personality = ''kritisch'' then nl @ ''Sei kritisch und hinterfrage Annahmen.''
      else if current_personality = ''vision'' @ auml @ ''r''
        then nl @ ''Sei vision'' @ auml @ ''r und denke gro'' @ [CHR 0xC3, CHR 0x9F] @ ''.''
      else if current_personality = ''konservativ''
        then nl @ ''Sei konservativ und bleibe bei Bew'' @ auml @ ''hrtem.''
      else [])"

definition language_directive :: "string \<Rightarrow> string" where
  "language_directive lang =
     (if lang = ''Deutsch'' then nl @ nl @ ''Antworte auf Deutsch.''
      else if lang = ''Englisch'' then nl @ nl @ ''Respond in English.''
      else if lang = ''Franz'' @ [CHR 0xC3, CHR 0xB6] @ ''sisch''
        then nl @ nl @ ''R'' @ [CHR 0xC3, CHR 0xA9] @ ''pondez en fran'' @ [CHR 0xC3, CHR 0xA7] @ ''ais.''
      else if lang = ''Spanisch''
        then nl @ nl @ ''Responde en espa'' @ [CHR 0xC3, CHR 0xB1] @ ''ol.''
      else [])"

definition prompt_txt ::
  "string \<Rightarrow> nat \<Rightarrow> string \<Rightarrow> string \<Rightarrow> string \<Rightarrow> string \<Rightarrow> string \<Rightarrow> string \<Rightarrow> string" where
  "prompt_txt topic i current_agent_name current_instruction prev_agent_name prev_output
       current_personality lang =
     ''Wir f'' @ uuml @ ''hren eine Konversation '' @ uuml @ ''ber: '' @ quote @ topic @ quote
       @ ''.'' @ nl
     @ ''Iteration '' @ str_int (int i + 1) @ '': Agent '' @ current_agent_name
       @ '' (Spezialist f'' @ uuml @ ''r **'' @ current_agent_name @ ''**). ''
       @ current_instruction @ nl
     @ ''Agent '' @ prev_agent_name @ '' sagte: '' @ prev_output @ nl
     @ personality_directive current_personality
     @ language_directive lang"

definition user_message :: "string \<Rightarrow> nat \<Rightarrow> string \<Rightarrow> string \<Rightarrow> string \<Rightarrow> message" where
  "user_message current_agent_name i topic prev_agent_name prev_output =
     \<lparr>role = ''user'',
      content = ''Agent '' @ current_agent_name @ '' (Iteration '' @ str_int (int i + 1)
        @ ''): Thema '' @ topic @ '', vorheriger: '' @ prev_agent_name @ '': '' @ prev_output\<rparr>"

definition assistant_message :: "string \<Rightarrow> nat \<Rightarrow> string \<Rightarrow> message" where
  "assistant_message current_agent_name i agent_output =
     \<lparr>role = ''assistant'',
      content = ''Antwort von Agent '' @ current_agent_name @ '' (Iteration ''
        @ str_int (int i + 1) @ ''):'' @ nl @ agent_output\<rparr>"

definition formatted_output_chunk :: "nat \<Rightarrow> string \<Rightarrow> string \<Rightarrow> string \<Rightarrow> string" where
  "formatted_output_chunk i current_agent_name current_personality agent_output =
     ''**Iteration '' @ str_int (int i + 1) @ '': Agent '' @ current_agent_name @ '' (''
       @ current_personality @ '')**'' @ nl @ nl @ agent_output @ nl @ nl @ ''---'' @ nl @ nl"

definition retry_prompt :: string where
  "retry_prompt = ''Versuche eine kreativere Antwort.''"

definition error_marker :: string where
  "error_marker = ''Fehler bei Gemini API Aufruf''"

definition new_topic :: string where
  "new_topic = ''Neues Thema: KI-Trends 2026''"

definition sum_prompt :: "string \<Rightarrow> string" where
  "sum_prompt topic =
     ''Fasse die gesamte Diskussion '' @ uuml @ ''ber '' @ quote @ topic @ quote @ '' zusammen.''"

definition summary_message :: "string \<Rightarrow> message" where
  "summary_message sum_text =
     \<lparr>role = ''assistant'', content = ''**Zusammenfassung**:'' @ nl @ sum_text\<rparr>"

definition final_message :: "string \<Rightarrow> message" where
  "final_message final_text =
     \<lparr>role = ''assistant'', content = ''Finale Aussage:'' @ nl @ final_text\<rparr>"

text \<open>
  \<open>agent_idx = i % num_agents\<close> and \<open>(agent_idx - 1) % num_agents\<close>, for
  \<open>num_agents > 0\<close>: Python's \<open>%\<close> with a positive divisor is \<open>mod\<close> on \<open>int\<close>.
\<close>

definition agent_idx_of :: "nat \<Rightarrow> nat \<Rightarrow> nat" where
  "agent_idx_of i num_agents = i mod num_agents"

definition prev_idx_of :: "nat \<Rightarrow> nat \<Rightarrow> nat" where
  "prev_idx_of i num_agents = nat ((int (agent_idx_of i num_agents) - 1) mod int num_agents)"

text \<open>
  The quality retry of lines 365 to 372: the output the turn keeps and the world after.
\<close>

definition quality_retry :: "remote \<Rightarrow> string \<Rightarrow> world \<Rightarrow> (py_error + string) \<times> world" where
  "quality_retry rem agent_output w =
     (if evaluate_response agent_output = ''schlechte antwort'' then
        (case call_gemini_api rem retry_prompt w of
           (Inl e, w') \<Rightarrow> (Inl e, w')
         | (Inr retry_output, w') \<Rightarrow>
             (Inr (if \<not> contains error_marker retry_output then retry_output else agent_output),
              w'))
      else (Inr agent_output, w))"

text \<open>
  The body of the loop up to and including its \<open>yield\<close>: the output of the turn and the
  state at the \<open>yield\<close>. \<open>i % num_agents\<close> raises for an empty roster, and an
  exception that leaves \<open>call_gemini_api\<close> leaves the generator. Every index into
  \<open>active_agents_names\<close> and \<open>agent_outputs\<close> is below \<open>num_agents\<close>, the length of both.
\<close>

definition turn :: "remote \<Rightarrow> conv_args \<Rightarrow> nat \<Rightarrow> run_state \<Rightarrow> py_error + string \<times> run_state" where
  "turn rem args i st =
     (let active_agents_names = map name (selected_agents args);
          num_agents = length active_agents_names
      in if num_agents = 0 then Inl ZeroDivisionError
         else
           let agent_idx = agent_idx_of i num_agents;
               current_agent_name = active_agents_names ! agent_idx
           in case find (\<lambda>a. name a = current_agent_name) (selected_agents args) of
                None \<Rightarrow> Inl AttributeError
              | Some current_agent_config \<Rightarrow>
                 (let current_personality = personality current_agent_config;
                      current_instruction = instruction current_agent_config;
                      prev_agent_name = active_agents_names ! prev_idx_of i num_agents;
                      prev_output = agent_outputs st ! prev_idx_of i num_agents;
                      prompt = prompt_txt (conversation_topic args) i current_agent_name
                        current_instruction prev_agent_name prev_output current_personality
                        (language args);
                      history1 = chat_history st @
                        [user_message current_agent_name i (conversation_topic args)
                           prev_agent_name prev_output]
                  in (case call_gemini_api rem prompt (world_of st) of
                       (Inl e, w1) \<Rightarrow> Inl e
                     | (Inr first_output, w1) \<Rightarrow>
                         (case quality_retry rem first_output w1 of
                            (Inl e, w2) \<Rightarrow> Inl e
                          | (Inr agent_output, w2) \<Rightarrow>
                              let history2 = history1 @
                                    [assistant_message current_agent_name i agent_output]
                              in Inr (agent_output,
                                   \<lparr>chat_history = history2,
                                    agent_outputs = (agent_outputs st)[agent_idx := agent_output],
                                    topic_changed = topic_changed st,
                                    world_of = w2,
                                    emitted = emitted st @
                                      [\<lparr>y_chat_history = history2,
                                        y_text = formatted_output_chunk i current_agent_name
                                          current_personality agent_output,
                                        y_discussion_id = discussion_id args,
                                        y_iteration = Some (int i + 1),
                                        y_agent_name = Some current_agent_name\<rparr>]\<rparr>)))))"

text \<open>
  The condition of line 388. \<open>iterations * 0.6\<close> is a float; for an iteration count below
  \<open>2 ^ 50\<close> the product is \<open>3 * iterations / 5\<close> rounded to a float that no integer lies
  between, so \<open>i > iterations * 0.6\<close> is \<open>3 * iterations < 5 * i\<close>.
\<close>

definition stagnation_fires :: "conv_args \<Rightarrow> nat \<Rightarrow> string \<Rightarrow> run_state \<Rightarrow> bool" where
  "stagnation_fires args i agent_output st =
     (3 * iterations args < 5 * int i
      \<and> agent_output = agent_outputs st ! prev_idx_of i (length (selected_agents args))
      \<and> \<not> topic_changed st)"

definition stagnation_check :: "conv_args \<Rightarrow> nat \<Rightarrow> string \<Rightarrow> run_state \<Rightarrow> run_state" where
  "stagnation_check args i agent_output st =
     (if stagnation_fires args i agent_output st
      then st\<lparr>agent_outputs := replicate (length (selected_agents args)) new_topic,
              topic_changed := True\<rparr>
      else st)"

definition iteration_body :: "remote \<Rightarrow> conv_args \<Rightarrow> nat \<Rightarrow> run_state \<Rightarrow> py_error + run_state" where
  "iteration_body rem args i st =
     (case turn rem args i st of
        Inl e \<Rightarrow> Inl e
      | Inr (agent_output, st') \<Rightarrow> Inr (stagnation_check args i agent_output st'))"

text \<open>A \<open>for\<close> loop over the given indices whose body may raise.\<close>

fun for_range :: "(nat \<Rightarrow> 's \<Rightarrow> py_error + 's) \<Rightarrow> nat list \<Rightarrow> 's \<Rightarrow> py_error + 's" where
  "for_range body [] st = Inr st"
| "for_range body (i # rest) st =
     (case body i st of Inl e \<Rightarrow> Inl e | Inr st' \<Rightarrow> for_range body rest st')"

definition initial_state :: "conv_args \<Rightarrow> message list \<Rightarrow> world \<Rightarrow> run_state" where
  "initial_state args history w =
     \<lparr>chat_history = history,
      agent_outputs = replicate (length (selected_agents args)) [],
      topic_changed = False,
      world_of = w,
      emitted = []\<rparr>"

text \<open>\<open>if user_state:\<close> holds for a string that is not empty.\<close>

definition truthy :: "string option \<Rightarrow> bool" where
  "truthy u = (case u of None \<Rightarrow> False | Some s \<Rightarrow> s \<noteq> [])"

text \<open>
  Lines 393 to 415, after the loop: the summary call, the save for a logged-in user,
  \<open>agent_outputs[-1]\<close> (which raises on an empty list) and the last \<open>yield\<close>.
\<close>

definition finish :: "remote \<Rightarrow> db_env \<Rightarrow> conv_args \<Rightarrow> run_state \<Rightarrow> py_error + run_state" where
  "finish rem db args st =
     (case call_gemini_api rem (sum_prompt (conversation_topic args)) (world_of st) of
        (Inl e, w1) \<Rightarrow> Inl e
      | (Inr sum_text, w1) \<Rightarrow>
          (let history1 = chat_history st @ [summary_message sum_text]
           in (case (if truthy (user_state args)
                     then save_discussion_data_db db (discussion_id args)
                            (conversation_topic args) (map name (selected_agents args))
                            history1 sum_text (user_state args) w1
                     else Inr w1) of
                 Inl e \<Rightarrow> Inl e
               | Inr w2 \<Rightarrow>
                   if agent_outputs st = [] then Inl IndexError
                   else
                     (let final_text = last (agent_outputs st);
                          history2 = history1 @ [final_message final_text]
                      in Inr (st\<lparr>chat_history := history2,
                                 world_of := w2,
                                 emitted := emitted st @
                                   [\<lparr>y_chat_history = history2, y_text = sum_text,
                                     y_discussion_id = discussion_id args,
                                     y_iteration = None, y_agent_name = None\<rparr>]\<rparr>)))))"

text \<open>
  An id of \<open>None\<close> is replaced by the timestamp \<open>now\<close> (lines 314 and 315, and lines 581
  and 582 of the callback).
\<close>

definition default_id :: "string \<Rightarrow> string option \<Rightarrow> string" where
  "default_id now given = (case given of None \<Rightarrow> now | Some d \<Rightarrow> d)"

text \<open>
  The whole generator, consumed to its end: the loop over \<open>range(iterations)\<close>, then
  the lines after it.
\<close>

definition joint_conversation_with_selected_agents ::
  "remote \<Rightarrow> db_env \<Rightarrow> conv_args \<Rightarrow> message list \<Rightarrow> world \<Rightarrow> py_error + run_state" where
  "joint_conversation_with_selected_agents rem db args history w =
     (case for_range (iteration_body rem args) [0..<nat (iterations args)]
             (initial_state args history w) of
        Inl e \<Rightarrow> Inl e
      | Inr st \<Rightarrow> finish rem db args st)"

subsection \<open>process\_input\_custom\_agents\<close>

record agent_data =
  cfg_name :: string
  cfg_personality :: string
  description :: string

record rating_state =
  rs_discussion_id :: "string option"
  rs_iteration :: "int option"
  rs_agent_name :: "string option"

text \<open>
  What the callback yields to the UI: the five values for an empty selection (a message in
  place of the history, an empty text, the id, \<open>visible=False\<close> for the rating row, the
  rating state), or the six values that relay one tuple of the conversation.
\<close>

datatype ui_output =
    NoSelection string string "string option" bool rating_state
  | Progress "message list" string string bool rating_state bool

text \<open>
  The loop over \<open>enumerate(agent_config_data)\<close>: \<open>cbox_vals\<close> and \<open>pers_vals\<close> hold one
  value for each configured agent; reading past the end of either raises.
\<close>

fun select_agents :: "agent_data list \<Rightarrow> bool list \<Rightarrow> string list \<Rightarrow> py_error + agent list" where
  "select_agents [] cbox_vals pers_vals = Inr []"
| "select_agents (a # rest) [] pers_vals = Inl IndexError"
| "select_agents (a # rest) (c # cs) pers_vals =
     (if c then
        (case pers_vals of
           [] \<Rightarrow> Inl IndexError
         | p # ps \<Rightarrow>
             (case select_agents rest cs ps of
                Inl e \<Rightarrow> Inl e
              | Inr sel \<Rightarrow>
                  Inr (\<lparr>name = cfg_name a, personality = p, instruction = description a\<rparr> # sel)))
      else select_agents rest cs (tl pers_vals))"

text \<open>The \<open>for\<close> loop over the conversation's tuples, lines 595 to 609.\<close>

fun relay :: "string \<Rightarrow> rating_state \<Rightarrow> yielded list \<Rightarrow> ui_output list" where
  "relay formatted_output_text rs [] = []"
| "relay formatted_output_text rs (y # ys) =
     (let text' = formatted_output_text @ y_text y;
          rs' = \<lparr>rs_discussion_id = Some (y_discussion_id y), rs_iteration = y_iteration y,
                 rs_agent_name = y_agent_name y\<rparr>
      in Progress (y_chat_history y) text' (y_discussion_id y) True rs' False
           # relay text' rs' ys)"

definition msg_no_agents :: string where
  "msg_no_agents = ''Keine Agenten ausgew'' @ auml @ ''hlt!''"

definition process_input_custom_agents ::
  "remote \<Rightarrow> db_env \<Rightarrow> string \<Rightarrow> agent_data list \<Rightarrow> string \<Rightarrow> message list \<Rightarrow> rating_state
     \<Rightarrow> string option \<Rightarrow> bool list \<Rightarrow> string list \<Rightarrow> int \<Rightarrow> string \<Rightarrow> string \<Rightarrow> string option
     \<Rightarrow> world \<Rightarrow> py_error + ui_output list \<times> world" where
  "process_input_custom_agents rem db now agent_config_data user_topic history rs
       current_usr_state cbox_vals pers_vals iters level lang discussion_id_state w =
     (case select_agents agent_config_data cbox_vals pers_vals of
        Inl e \<Rightarrow> Inl e
      | Inr sel \<Rightarrow>
          if sel = [] then Inr ([NoSelection msg_no_agents [] discussion_id_state False rs], w)
          else
            (case joint_conversation_with_selected_agents rem db
                    \<lparr>conversation_topic = user_topic, selected_agents = sel, iterations = iters,
                     expertise_level = level, language = lang, user_state = current_usr_state,
                     discussion_id = default_id now discussion_id_state\<rparr>
                    history w of
               Inl e \<Rightarrow> Inl e
             | Inr st \<Rightarrow> Inr (relay [] rs (emitted st), world_of st)))"

section \<open>Notions used to state the properties\<close>

subsection \<open>One call of call\_gemini\_api, attempt by attempt\<close>

text \<open>
  \<open>outcome_at rem prompt w j\<close> is what the service answers to attempt \<open>j\<close> (from 0) of a call
  that starts in world \<open>w\<close>. \<open>resolves lib\<close> says that both names of lines 265 and 267
  resolve in the package, as the source supposes. The other notions describe the loop
  for such a package: an outcome ends the call when the loop returns on it at once (a
  response, status 401, or an exception that is not an API error); \<open>delay_after\<close> is the
  value of \<open>retry_delay\<close> after a failed attempt, doubled by each status 429 so far;
  \<open>result_text\<close> is the string the call returns when the given outcome is its last one.
\<close>

definition resolves :: "genai_lib \<Rightarrow> bool" where
  "resolves lib = (exports_APIError lib \<and> error_has_status_code lib)"

definition outcome_at :: "remote \<Rightarrow> string \<Rightarrow> world \<Rightarrow> nat \<Rightarrow> api_outcome" where
  "outcome_at rem prompt w j = rem (length (requests w) + j) prompt"

definition ends_call :: "api_outcome \<Rightarrow> bool" where
  "ends_call out = (case out of APIError status_code e \<Rightarrow> status_code = 401 | _ \<Rightarrow> True)"

definition is_rate_limit :: "api_outcome \<Rightarrow> bool" where
  "is_rate_limit out = (case out of APIError status_code e \<Rightarrow> status_code = 429 | _ \<Rightarrow> False)"

definition is_response :: "api_outcome \<Rightarrow> bool" where
  "is_response out = (case out of Response t \<Rightarrow> True | _ \<Rightarrow> False)"

fun delay_after :: "int \<Rightarrow> remote \<Rightarrow> string \<Rightarrow> world \<Rightarrow> nat \<Rightarrow> int" where
  "delay_after d rem prompt w 0 = (if is_rate_limit (outcome_at rem prompt w 0) then d * 2 else d)"
| "delay_after d rem prompt w (Suc j) =
     (if is_rate_limit (outcome_at rem prompt w (Suc j)) then delay_after d rem prompt w j * 2
      else delay_after d rem prompt w j)"

definition result_text :: "api_outcome \<Rightarrow> string" where
  "result_text out =
     (case out of
        Response text \<Rightarrow> (case text of None \<Rightarrow> msg_empty | Some t \<Rightarrow> if t = [] then msg_empty else t)
      | APIError status_code err_s \<Rightarrow>
          if status_code = 401 then msg_auth
          else if status_code = 429 then msg_rate_limit
          else if status_code = 503 then msg_overloaded
          else msg_unexpected err_s
      | OtherException err_s \<Rightarrow> msg_general err_s)"

definition call_ok ::
  "remote \<Rightarrow> string \<Rightarrow> int \<Rightarrow> world \<Rightarrow> nat \<Rightarrow> nat \<Rightarrow> (py_error + string) \<times> world \<Rightarrow> bool" where
  "call_ok rem prompt d w limit n res =
     (1 \<le> n \<and> n \<le> limit
      \<and> (\<forall>j<n. ends_call (outcome_at rem prompt w j) \<longrightarrow> Suc j = n)
      \<and> (n = limit \<or> ends_call (outcome_at rem prompt w (n - 1)))
      \<and> fst res = Inr (result_text (outcome_at rem prompt w (n - 1)))
      \<and> snd res = w\<lparr>requests := requests w @ replicate n prompt,
                      sleeps := sleeps w @ map (delay_after d rem prompt w) [0..<n - 1]
                        @ (if is_response (outcome_at rem prompt w (n - 1)) then [api_sleep_seconds] else [])\<rparr>)"

subsection \<open>The loop, iteration by iteration\<close>

text \<open>
  \<open>state_at k\<close> is the state after \<open>k\<close> iterations, that is at the start of iteration
  \<open>k\<close> (counted from 0, as the loop variable \<open>i\<close>); \<open>turn_at i\<close> is the output of
  iteration \<open>i\<close> and the state at its \<open>yield\<close>; \<open>fires_at i\<close> says that the condition
  of line 388 holds in iteration \<open>i\<close>. \<open>speaker\<close> and \<open>previous\<close> are
  \<open>current_agent_name\<close> and \<open>prev_agent_name\<close> of iteration \<open>i\<close>. \<open>turn_pair\<close> lists
  the two transcript entries of one turn.
\<close>

definition state_at :: "remote \<Rightarrow> conv_args \<Rightarrow> message list \<Rightarrow> world \<Rightarrow> nat \<Rightarrow> py_error + run_state" where
  "state_at rem args history w k =
     for_range (iteration_body rem args) [0..<k] (initial_state args history w)"

definition turn_at ::
  "remote \<Rightarrow> conv_args \<Rightarrow> message list \<Rightarrow> world \<Rightarrow> nat \<Rightarrow> py_error + string \<times> run_state" where
  "turn_at rem args history w i =
     (case state_at rem args history w i of Inl e \<Rightarrow> Inl e | Inr st \<Rightarrow> turn rem args i st)"

definition fires_at :: "remote \<Rightarrow> conv_args \<Rightarrow> message list \<Rightarrow> world \<Rightarrow> nat \<Rightarrow> bool" where
  "fires_at rem args history w i =
     (case turn_at rem args history w i of
        Inl e \<Rightarrow> False
      | Inr (agent_output, st) \<Rightarrow> stagnation_fires args i agent_output st)"

definition speaker :: "conv_args \<Rightarrow> nat \<Rightarrow> string" where
  "speaker args i = name (selected_agents args ! agent_idx_of i (length (selected_agents args)))"

definition previous :: "conv_args \<Rightarrow> nat \<Rightarrow> string" where
  "previous args i = name (selected_agents args ! prev_idx_of i (length (selected_agents args)))"

text \<open>
  \<open>roster_at args j\<close> is \<open>roster[j mod R]\<close> for an integer \<open>j\<close>, and \<open>slot_of args j\<close> its
  position \<open>j mod R\<close> in the roster and in the output window; \<open>mod\<close> on \<open>int\<close> is Python's
  \<open>%\<close> for a positive divisor, so \<open>slot_of args (- 1) = R - 1\<close>.
\<close>

definition slot_of :: "conv_args \<Rightarrow> int \<Rightarrow> nat" where
  "slot_of args j = nat (j mod int (length (selected_agents args)))"

definition roster_at :: "conv_args \<Rightarrow> int \<Rightarrow> agent" where
  "roster_at args j = selected_agents args ! slot_of args j"

text \<open>
  \<open>current_config\<close> is \<open>current_agent_config\<close> of iteration \<open>i\<close>, the first roster entry
  that bears the speaker's name (line 327), and \<open>prompt_at i\<close> is the prompt that
  iteration \<open>i\<close> sends first, for an iteration that reaches its \<open>yield\<close>.
\<close>

definition current_config :: "conv_args \<Rightarrow> nat \<Rightarrow> agent option" where
  "current_config args i = find (\<lambda>a. name a = speaker args i) (selected_agents args)"

definition prompt_at :: "remote \<Rightarrow> conv_args \<Rightarrow> message list \<Rightarrow> world \<Rightarrow> nat \<Rightarrow> string option" where
  "prompt_at rem args history w i =
     (case state_at rem args history w i of
        Inl e \<Rightarrow> None
      | Inr s \<Rightarrow>
          (case turn rem args i s of
             Inl e \<Rightarrow> None
           | Inr (agent_output, s') \<Rightarrow>
               Some (requests (world_of s') ! length (requests (world_of s)))))"


text \<open>
  \<open>output_at i\<close> is the output of iteration \<open>i\<close>, \<open>None\<close> if the loop has raised by
  then; \<open>transcript_of\<close> is the transcript of a run, empty if the run raised.
\<close>

definition output_at :: "remote \<Rightarrow> conv_args \<Rightarrow> message list \<Rightarrow> world \<Rightarrow> nat \<Rightarrow> string option" where
  "output_at rem args history w i =
     (case turn_at rem args history w i of Inl e \<Rightarrow> None | Inr (agent_output, st) \<Rightarrow> Some agent_output)"

definition transcript_of :: "py_error + run_state \<Rightarrow> message list" where
  "transcript_of r = (case r of Inl e \<Rightarrow> [] | Inr st \<Rightarrow> chat_history st)"

subsection \<open>Votes\<close>

text \<open>
  The counters of a key that has no entry yet, and what one vote of the given kind makes
  of a pair of counters.
\<close>

definition no_votes :: counters where
  "no_votes = \<lparr>upvotes = 0, downvotes = 0\<rparr>"

definition counted :: "string \<Rightarrow> counters \<Rightarrow> counters" where
  "counted rating_type c =
     (if rating_type = ''upvote'' then c\<lparr>upvotes := upvotes c + 1\<rparr>
      else if rating_type = ''downvote'' then c\<lparr>downvotes := downvotes c + 1\<rparr>
      else c)"

subsection \<open>Concrete services, rosters and ledgers\<close>

definition world0 :: world where
  "world0 = \<lparr>requests = [], sleeps = [], discussions = []\<rparr>"

definition rem_mixed :: remote where
  "rem_mixed k p = (if k < 2 then APIError 429 ''quota'' else if k = 2 then APIError 503 ''busy''
     else Response (Some ''ok''))"

definition lib_as_supposed :: genai_lib where
  "lib_as_supposed = \<lparr>exports_APIError = True, error_has_status_code = True\<rparr>"

definition rem_rate_limited :: remote where
  "rem_rate_limited k p = APIError 429 ''quota''"

definition rem_poor_then_auth :: remote where
  "rem_poor_then_auth k p =
     (if k = 0 then Response (Some ''Ich wiederhole mich.'')
      else if k = 1 then APIError 401 ''unauthorized''
      else Response (Some ''Fazit''))"

definition rem_poor_then_empty :: remote where
  "rem_poor_then_empty k p =
     (if k = 0 then Response (Some ''Ich wiederhole mich.'')
      else if k = 1 then Response None
      else Response (Some ''Fazit''))"

definition first_prompt_solo :: string where
  "first_prompt_solo = prompt_txt ''X'' 0 ''A'' ''Pruefe.'' ''A'' [] ''kritisch'' ''Deutsch''"

definition rem_echo :: remote where
  "rem_echo k p = Response (Some (''Beitrag '' @ str_nat k))"

definition agent_A :: agent where
  "agent_A = \<lparr>name = ''A'', personality = ''kritisch'', instruction = ''Pruefe.''\<rparr>"

definition agent_B :: agent where
  "agent_B = \<lparr>name = ''B'', personality = ''neutral'', instruction = ''Ergaenze.''\<rparr>"

definition agent_A2 :: agent where
  "agent_A2 = \<lparr>name = ''A'', personality = ''neutral'', instruction = ''Traeume.''\<rparr>"

definition args_twins :: conv_args where
  "args_twins = \<lparr>conversation_topic = ''X'', selected_agents = [agent_A, agent_A2], iterations = 2,
     expertise_level = ''Experte'', language = ''Englisch'', user_state = None,
     discussion_id = ''20250101_120000''\<rparr>"

definition args_solo :: conv_args where
  "args_solo = \<lparr>conversation_topic = ''X'', selected_agents = [agent_A], iterations = 1,
     expertise_level = ''Experte'', language = ''Deutsch'', user_state = Some ''uta'',
     discussion_id = ''20250101_120000''\<rparr>"

definition loaded_tab :: tab_state where
  "loaded_tab =
     (let doc = [''d1'' \<mapsto> \<lparr>autoviv = False,
                   by_iteration = [StrKey ''1'' \<mapsto> [''A'' \<mapsto> \<lparr>upvotes = 1, downvotes = 0\<rparr>]]\<rparr>]
      in \<lparr>discussion_ratings = doc, rating_file = Some doc\<rparr>)"

definition args_duo :: conv_args where
  "args_duo = \<lparr>conversation_topic = ''X'', selected_agents = [agent_A, agent_B], iterations = 3,
     expertise_level = ''Experte'', language = ''Englisch'', user_state = None,
     discussion_id = ''20250101_120000''\<rparr>"

definition args_solo3 :: conv_args where
  "args_solo3 = \<lparr>conversation_topic = ''X'', selected_agents = [agent_A], iterations = 3,
     expertise_level = ''Experte'', language = ''Deutsch'', user_state = None,
     discussion_id = ''20250101_120000''\<rparr>"

definition rem_same :: remote where
  "rem_same k p = Response (Some ''Einverstanden.'')"

definition args_duo2 :: conv_args where
  "args_duo2 = args_duo\<lparr>iterations := 2\<rparr>"

definition config_two :: "agent_data list" where
  "config_two =
     [\<lparr>cfg_name = ''A'', cfg_personality = ''kritisch'', description = ''Pruefe.''\<rparr>,
      \<lparr>cfg_name = ''B'', cfg_personality = ''neutral'', description = ''Ergaenze.''\<rparr>]"

definition no_rating :: rating_state where
  "no_rating = \<lparr>rs_discussion_id = None, rs_iteration = None, rs_agent_name = None\<rparr>"

section \<open>The retry loop of call\_gemini\_api\<close>

text \<open>
  First the loop as the source supposes it, for a package in which both names resolve.
\<close>

lemma attempts_step:
  "resolves lib \<Longrightarrow> k \<le> api_max_retries \<Longrightarrow>
   attempts lib rem prompt [k..<Suc api_max_retries] d w =
     (case rem (length (requests w)) prompt of
        Response text \<Rightarrow>
          (Inr (case text of
                  None \<Rightarrow> msg_empty
                | Some t \<Rightarrow> if t = [] then msg_empty else t),
           sleep api_sleep_seconds (w\<lparr>requests := requests w @ [prompt]\<rparr>))
      | APIError status_code err_s \<Rightarrow>
          if status_code = 401 then (Inr msg_auth, w\<lparr>requests := requests w @ [prompt]\<rparr>)
          else if k < api_max_retries then
            (let d' = (if status_code = 429 then d * 2 else d)
             in attempts lib rem prompt [Suc k..<Suc api_max_retries] d'
                  (sleep d' (w\<lparr>requests := requests w @ [prompt]\<rparr>)))
          else
            (Inr (if status_code = 429 then msg_rate_limit
                  else if status_code = 503 then msg_overloaded
                  else msg_unexpected err_s),
             w\<lparr>requests := requests w @ [prompt]\<rparr>)
      | OtherException err_s \<Rightarrow>
          (Inr (msg_general err_s), w\<lparr>requests := requests w @ [prompt]\<rparr>))"
  by (simp add: resolves_def upt_conv_Cons generate_content_def Let_def
      split: api_outcome.splits option.splits)

lemma attempts_one:
  assumes lib: "resolves lib" and k: "k \<le> api_max_retries"
    and stop: "ends_call (rem (length (requests w)) prompt) \<or> \<not> k < api_max_retries"
  shows "call_ok rem prompt d w (Suc api_max_retries - k) 1 (attempts lib rem prompt [k..<Suc api_max_retries] d w)"
  unfolding attempts_step[OF lib k] call_ok_def using stop k
  by (auto simp add: outcome_at_def ends_call_def is_response_def result_text_def sleep_def
      split: api_outcome.splits option.splits)

lemma attempts_shape:
  "resolves lib \<Longrightarrow> k \<le> api_max_retries \<Longrightarrow>
   \<exists>n. call_ok rem prompt d w (Suc api_max_retries - k) n (attempts lib rem prompt [k..<Suc api_max_retries] d w)"
proof (induction "api_max_retries - k" arbitrary: k d w)
  case 0
  then show ?case using attempts_one[of lib k rem w prompt d] by auto
next
  case (Suc m)
  then have k: "k < api_max_retries" "Suc k \<le> api_max_retries" "m = api_max_retries - Suc k" by simp_all
  show ?case
  proof (cases "ends_call (rem (length (requests w)) prompt)")
    case True
    then show ?thesis using attempts_one[OF Suc.prems, of rem w prompt d] by auto
  next
    case False
    then obtain code e where out: "rem (length (requests w)) prompt = APIError code e" "code \<noteq> 401"
      by (auto simp: ends_call_def split: api_outcome.splits)
    define d' where "d' = (if code = 429 then d * 2 else d)"
    define w' where "w' = sleep d' (w\<lparr>requests := requests w @ [prompt]\<rparr>)"
    define res where "res = attempts lib rem prompt [Suc k..<Suc api_max_retries] d' w'"
    have step: "attempts lib rem prompt [k..<Suc api_max_retries] d w = res"
      unfolding attempts_step[OF Suc.prems] res_def using k out by (simp add: d'_def w'_def Let_def)
    from Suc.hyps(1)[OF k(3) Suc.prems(1) k(2), of d' w'] obtain n where
      n: "call_ok rem prompt d' w' (Suc api_max_retries - Suc k) n res"
      unfolding res_def by blast
    have rw: "requests w' = requests w @ [prompt]" "sleeps w' = sleeps w @ [d']"
      by (simp_all add: w'_def sleep_def)
    have oa: "\<And>j. outcome_at rem prompt w' j = outcome_at rem prompt w (Suc j)"
      by (simp add: outcome_at_def rw)
    have o0: "\<not> ends_call (outcome_at rem prompt w 0)" "\<not> is_response (outcome_at rem prompt w 0)"
      "is_rate_limit (outcome_at rem prompt w 0) = (code = 429)"
      using out by (simp_all add: outcome_at_def ends_call_def is_response_def is_rate_limit_def)
    have d0: "delay_after d rem prompt w 0 = d'"
      by (simp add: o0(3) d'_def)
    have dl: "\<And>j. delay_after d rem prompt w (Suc j) = delay_after d' rem prompt w' j"
    proof -
      fix j show "delay_after d rem prompt w (Suc j) = delay_after d' rem prompt w' j"
        by (induction j) (simp_all add: oa o0(3) d'_def)
    qed
    have n1: "1 \<le> n" and n2: "n \<le> api_max_retries - k"
      and n3: "\<forall>j<n. ends_call (outcome_at rem prompt w' j) \<longrightarrow> Suc j = n"
      and n4: "n = api_max_retries - k \<or> ends_call (outcome_at rem prompt w' (n - 1))"
      and n5: "fst res = Inr (result_text (outcome_at rem prompt w' (n - 1)))"
      and n6: "snd res = w'\<lparr>requests := requests w' @ replicate n prompt,
                 sleeps := sleeps w' @ map (delay_after d' rem prompt w') [0..<n - 1]
                   @ (if is_response (outcome_at rem prompt w' (n - 1)) then [api_sleep_seconds] else [])\<rparr>"
      using n by (simp_all add: call_ok_def)
    have last_eq: "outcome_at rem prompt w' (n - 1) = outcome_at rem prompt w (Suc n - 1)"
      using n1 oa[of "n - 1"] by simp
    have map_eq: "map (delay_after d rem prompt w) [0..<Suc n - 1] = d' # map (delay_after d' rem prompt w') [0..<n - 1]"
    proof -
      have "Suc n - 1 = Suc (n - 1)" using n1 by simp
      then show ?thesis by (simp only: map_upt_Suc dl d0)
    qed
    have "call_ok rem prompt d w (Suc api_max_retries - k) (Suc n) res"
      unfolding call_ok_def
    proof (intro conjI)
      show "1 \<le> Suc n" by simp
      show "Suc n \<le> Suc api_max_retries - k" using n2 k by simp
      show "\<forall>j<Suc n. ends_call (outcome_at rem prompt w j) \<longrightarrow> Suc j = Suc n"
      proof (intro allI impI)
        fix j assume j: "j < Suc n" "ends_call (outcome_at rem prompt w j)"
        then obtain j' where "j = Suc j'" using o0 by (cases j) auto
        with j n3 oa show "Suc j = Suc n" by auto
      qed
      show "Suc n = Suc api_max_retries - k \<or> ends_call (outcome_at rem prompt w (Suc n - 1))"
        using n4 k unfolding last_eq by auto
      show "fst res = Inr (result_text (outcome_at rem prompt w (Suc n - 1)))"
        using n5 unfolding last_eq .
      show "snd res = w\<lparr>requests := requests w @ replicate (Suc n) prompt,
                      sleeps := sleeps w @ map (delay_after d rem prompt w) [0..<Suc n - 1]
                        @ (if is_response (outcome_at rem prompt w (Suc n - 1)) then [api_sleep_seconds] else [])\<rparr>"
        unfolding map_eq n6 last_eq
        by (simp add: w'_def sleep_def replicate_app_Cons_same)
    qed
    then show ?thesis unfolding step by blast
  qed
qed

text \<open>
  For such a package a call makes \<open>n\<close> attempts, \<open>1 \<le> n \<le> api_max_retries + 1 = 4\<close>, all
  with the same prompt. It goes on to a next attempt only after an API error whose status
  is not 401, and does so as long as attempts are left: a response, status 401 and an
  exception that is not an API error end the call at once. Before a retry it sleeps the
  current delay: 10 seconds at the start, doubled by each status 429 so far, unchanged
  by any other status. After a response it sleeps 10 seconds. It returns the text of the
  response, or the message that belongs to the last outcome.
\<close>

lemma retry_policy_if_names_resolve:
  assumes "resolves lib"
  shows "\<exists>n. 1 \<le> n \<and> n \<le> api_max_retries + 1
     \<and> (\<forall>j<n. ends_call (outcome_at rem prompt w j) \<longrightarrow> Suc j = n)
     \<and> (n = api_max_retries + 1 \<or> ends_call (outcome_at rem prompt w (n - 1)))
     \<and> fst (call_gemini_api_with lib rem prompt w) = Inr (result_text (outcome_at rem prompt w (n - 1)))
     \<and> snd (call_gemini_api_with lib rem prompt w) =
         w\<lparr>requests := requests w @ replicate n prompt,
           sleeps := sleeps w @ map (delay_after api_sleep_seconds rem prompt w) [0..<n - 1]
             @ (if is_response (outcome_at rem prompt w (n - 1)) then [api_sleep_seconds] else [])\<rparr>"
proof -
  have "[0..<api_max_retries + 1] = [0..<Suc api_max_retries]" by simp
  then have "call_gemini_api_with lib rem prompt w =
      attempts lib rem prompt [0..<Suc api_max_retries] api_sleep_seconds w"
    unfolding call_gemini_api_with_def by (rule arg_cong)
  moreover obtain n where
    "call_ok rem prompt api_sleep_seconds w (Suc api_max_retries - 0) n
       (attempts lib rem prompt [0..<Suc api_max_retries] api_sleep_seconds w)"
    using attempts_shape[OF assms, of 0 rem prompt api_sleep_seconds w] by blast
  ultimately show ?thesis
    unfolding call_ok_def by (intro exI[of _ n]) simp
qed

lemma retry_policy_example:
  "call_gemini_api_with lib_as_supposed rem_mixed ''p'' world0 =
     (Inr ''ok'',
      \<lparr>requests = [''p'', ''p'', ''p'', ''p''], sleeps = [20, 40, 40, 10], discussions = []\<rparr>)"
  by code_simp

text \<open>
  Now the method as the program runs it. With the package it imports, a request that is
  answered is handled as above; any request that raises makes Python evaluate
  \<open>genai.APIError\<close>, and the \<open>AttributeError\<close> of that evaluation leaves the method after
  this one request, with no delay.
\<close>

lemma call_gemini_api_real:
  "call_gemini_api rem prompt w =
     (case rem (length (requests w)) prompt of
        Response text \<Rightarrow>
          (Inr (case text of None \<Rightarrow> msg_empty | Some t \<Rightarrow> if t = [] then msg_empty else t),
           sleep api_sleep_seconds (w\<lparr>requests := requests w @ [prompt]\<rparr>))
      | APIError status_code err_s \<Rightarrow> (Inl AttributeError, w\<lparr>requests := requests w @ [prompt]\<rparr>)
      | OtherException err_s \<Rightarrow> (Inl AttributeError, w\<lparr>requests := requests w @ [prompt]\<rparr>))"
proof -
  have "[0..<api_max_retries + 1] = 0 # [1..<api_max_retries + 1]"
    by (simp add: upt_conv_Cons)
  then have "call_gemini_api rem prompt w =
      attempts google_genai rem prompt (0 # [1..<api_max_retries + 1]) api_sleep_seconds w"
    unfolding call_gemini_api_def call_gemini_api_with_def by (rule arg_cong)
  then show ?thesis
    by (simp add: google_genai_def generate_content_def Let_def
        split: api_outcome.splits option.splits)
qed

lemma failed_request_not_retried:
  "\<not> is_response (outcome_at rem prompt w 0) \<Longrightarrow>
   call_gemini_api rem prompt w = (Inl AttributeError, w\<lparr>requests := requests w @ [prompt]\<rparr>)"
  by (simp add: call_gemini_api_real is_response_def outcome_at_def split: api_outcome.splits)

lemma call_returns:
  assumes "call_gemini_api rem prompt w = (Inr t, w')"
  shows "requests w' = requests w @ [prompt]" and "discussions w' = discussions w"
    and "is_response (outcome_at rem prompt w 0)"
  using assms
  by (auto simp add: call_gemini_api_real is_response_def outcome_at_def sleep_def
      split: api_outcome.splits)

text \<open>
  Claim C2 (the code departs from it). The service answers the first request with a
  rate-limit error, status 429. The call makes this one request, sleeps nothing, and
  raises \<open>AttributeError\<close>: no retry, no doubled delay, no error string.
\<close>

theorem rate_limit_raises_attribute_error:
  "call_gemini_api rem_rate_limited ''p'' world0 =
     (Inl AttributeError, \<lparr>requests = [''p''], sleeps = [], discussions = []\<rparr>)"
  by (simp add: failed_request_not_retried is_response_def outcome_at_def rem_rate_limited_def
      world0_def)

section \<open>The quality retry\<close>

text \<open>
  A reply that is not poor is kept and no call is made. After a poor reply exactly one
  call is made, with the fixed prompt; if it returns, its result replaces the reply unless
  it contains the marker, and if it raises, the exception leaves the turn. Of the strings
  the loop of \<open>call_gemini_api\<close> holds for a failed call, only two contain the marker.
\<close>

lemma quality_retry_not_poor:
  "evaluate_response agent_output \<noteq> ''schlechte antwort'' \<Longrightarrow>
   quality_retry rem agent_output w = (Inr agent_output, w)"
  by (simp add: quality_retry_def)

lemma quality_retry_poor:
  "evaluate_response agent_output = ''schlechte antwort'' \<Longrightarrow>
   quality_retry rem agent_output w =
     (case call_gemini_api rem retry_prompt w of
        (Inl e, w') \<Rightarrow> (Inl e, w')
      | (Inr retry_output, w') \<Rightarrow>
          (Inr (if contains error_marker retry_output then agent_output else retry_output), w'))"
  by (simp add: quality_retry_def split: prod.splits sum.splits)

lemma quality_retry_returns:
  assumes "quality_retry rem agent_output w = (Inr t, w')"
  shows "\<exists>extra. requests w' = requests w @ extra"
proof (cases "evaluate_response agent_output = ''schlechte antwort''")
  case True
  then obtain r where "call_gemini_api rem retry_prompt w = (Inr r, w')"
    using assms by (auto simp add: quality_retry_poor split: prod.splits sum.splits)
  from call_returns(1)[OF this] show ?thesis by blast
next
  case False
  then show ?thesis using assms by (simp add: quality_retry_not_poor)
qed

lemma error_marker_in_messages:
  "contains error_marker (msg_general [])" "contains error_marker (msg_unexpected [])"
  "\<not> contains error_marker msg_auth" "\<not> contains error_marker msg_rate_limit"
  "\<not> contains error_marker msg_overloaded"
  by code_simp+

text \<open>
  The one string of this kind that the method returns with the package it imports is
  \<open>msg_empty\<close>, for a response without text. It does not contain the marker, so a retry
  that comes back with it replaces the poor reply.
\<close>

lemma empty_retry_adopted:
  "\<not> contains error_marker msg_empty"
  "output_at rem_poor_then_empty args_solo [] world0 0 = Some msg_empty"
  by code_simp+

text \<open>
  Claim C3 (the code departs from it). One agent, one iteration. The first reply of the
  turn is poor, and the request of the retry call fails with status 401. The retry call
  is made, once and with the fixed prompt, and raises \<open>AttributeError\<close>, which leaves the
  turn and the generator: the poor reply is not kept as the output of the turn, the turn
  has no output and yields nothing.
\<close>

theorem failed_retry_aborts_run:
  "fst (call_gemini_api rem_poor_then_auth first_prompt_solo world0) = Inr ''Ich wiederhole mich.''
   \<and> evaluate_response ''Ich wiederhole mich.'' = ''schlechte antwort''
   \<and> quality_retry rem_poor_then_auth ''Ich wiederhole mich.''
        (snd (call_gemini_api rem_poor_then_auth first_prompt_solo world0))
      = (Inl AttributeError,
         \<lparr>requests = [first_prompt_solo, retry_prompt], sleeps = [10], discussions = []\<rparr>)
   \<and> turn_at rem_poor_then_auth args_solo [] world0 0 = Inl AttributeError
   \<and> joint_conversation_with_selected_agents rem_poor_then_auth DbWorks args_solo [] world0
      = Inl AttributeError"
  by code_simp

section \<open>The rating ledger\<close>

text \<open>
  A vote returns when its discussion is new to the ledger, or was created in this
  process, or already has the iteration. A vote that returns has counted one vote of its
  kind on the counters of its key, created at zero if absent, has left every other key as
  it was, and has written the whole ledger unless the write failed; no counter of any
  key has decreased.
\<close>

lemma vote_succeeds:
  assumes "discussion_ratings tab d = None
     \<or> (\<exists>e. discussion_ratings tab d = Some e \<and> (autoviv e \<or> by_iteration e (IntKey it) \<noteq> None))"
  shows "\<exists>tab'. rate_agent_response io_ok d it a rating_type tab = Inr tab'"
  using assms by (auto simp add: rate_agent_response_def Let_def)


lemma vote_unfold:
  assumes "rate_agent_response io_ok d it a rating_type tab = Inr tab'"
  defines "e \<equiv> (case discussion_ratings tab d of
                    None \<Rightarrow> \<lparr>autoviv = True, by_iteration = Map.empty\<rparr> | Some e \<Rightarrow> e)"
  defines "agents \<equiv> (case by_iteration e (IntKey it) of None \<Rightarrow> Map.empty | Some m \<Rightarrow> m)"
  defines "c \<equiv> (case agents a of None \<Rightarrow> no_votes | Some c \<Rightarrow> c)"
  shows "discussion_ratings tab' = (discussion_ratings tab)(d \<mapsto>
           e\<lparr>by_iteration := (by_iteration e)(IntKey it \<mapsto> agents(a \<mapsto> counted rating_type c))\<rparr>)"
    and "rating_file tab' =
           (if io_ok then Some (discussion_ratings tab') else rating_file tab)"
proof -
  have ok: "\<not> (by_iteration e (IntKey it) = None \<and> \<not> autoviv e)"
    using assms(1) unfolding rate_agent_response_def e_def Let_def by (auto split: if_splits)
  have t: "tab' = save_rating_data io_ok
      ((discussion_ratings tab)(d \<mapsto>
           e\<lparr>by_iteration := (by_iteration e)(IntKey it \<mapsto> agents(a \<mapsto> counted rating_type c))\<rparr>))
      (tab\<lparr>discussion_ratings := (discussion_ratings tab)(d \<mapsto>
           e\<lparr>by_iteration := (by_iteration e)(IntKey it \<mapsto> agents(a \<mapsto> counted rating_type c))\<rparr>)\<rparr>)"
    using assms(1) ok
    unfolding rate_agent_response_def Let_def e_def[symmetric] agents_def[symmetric]
      c_def no_votes_def counted_def
    by (simp split: if_splits)
  show "discussion_ratings tab' = (discussion_ratings tab)(d \<mapsto>
           e\<lparr>by_iteration := (by_iteration e)(IntKey it \<mapsto> agents(a \<mapsto> counted rating_type c))\<rparr>)"
    unfolding t save_rating_data_def by simp
  show "rating_file tab' = (if io_ok then Some (discussion_ratings tab') else rating_file tab)"
    unfolding t save_rating_data_def by simp
qed

lemma vote_counts:
  assumes "rate_agent_response io_ok d it a rating_type tab = Inr tab'"
  shows "rating_of (discussion_ratings tab') d it a =
      Some (counted rating_type
        (case rating_of (discussion_ratings tab) d it a of None \<Rightarrow> no_votes | Some c \<Rightarrow> c))"
  unfolding vote_unfold(1)[OF assms] rating_of_def
  by (simp split: option.splits)

lemma vote_frame:
  assumes "rate_agent_response io_ok d it a rating_type tab = Inr tab'"
    and "(d', it', a') \<noteq> (d, it, a)"
  shows "rating_of (discussion_ratings tab') d' it' a' = rating_of (discussion_ratings tab) d' it' a'"
  using assms(2) unfolding vote_unfold(1)[OF assms(1)] rating_of_def
  by (auto split: option.splits)

lemma vote_saved:
  assumes "rate_agent_response io_ok d it a rating_type tab = Inr tab'" and "io_ok"
  shows "rating_file tab' = Some (discussion_ratings tab')"
  using vote_unfold(2)[OF assms(1)] assms(2) by simp

lemma counted_mono: "upvotes c \<le> upvotes (counted rating_type c) \<and> downvotes c \<le> downvotes (counted rating_type c)"
  by (simp add: counted_def)

lemma vote_monotone:
  assumes v: "rate_agent_response io_ok d it a rating_type tab = Inr tab'"
    and c: "rating_of (discussion_ratings tab) d' it' a' = Some c"
  shows "\<exists>c'. rating_of (discussion_ratings tab') d' it' a' = Some c'
     \<and> upvotes c \<le> upvotes c' \<and> downvotes c \<le> downvotes c'"
proof (cases "(d', it', a') = (d, it, a)")
  case True
  then have "rating_of (discussion_ratings tab') d' it' a' = Some (counted rating_type c)"
    using vote_counts[OF v] c by simp
  then show ?thesis using counted_mono by blast
next
  case False
  from vote_frame[OF v False] c show ?thesis by simp
qed

text \<open>
  Claim C9 (the code departs from it). The ledger was read from the rating file at start-up
  and holds discussion \<open>d1\<close> with ratings for iteration \<open>"1"\<close>. The value under
  \<open>d1\<close> is a plain dictionary, so a vote for iteration 2 of \<open>d1\<close> raises \<open>KeyError\<close>:
  no entry is created, no counter incremented, nothing written.
\<close>

theorem vote_on_loaded_discussion_raises:
  "rate_agent_response True ''d1'' 2 ''A'' ''upvote'' loaded_tab = Inl KeyError"
  by (simp add: rate_agent_response_def loaded_tab_def Let_def)

section \<open>The conversation loop\<close>

lemma for_range_append:
  "for_range body (xs @ ys) st =
     (case for_range body xs st of Inl e \<Rightarrow> Inl e | Inr st' \<Rightarrow> for_range body ys st')"
  by (induction xs arbitrary: st) (auto split: sum.splits)

lemma state_at_0: "state_at rem args history w 0 = Inr (initial_state args history w)"
  by (simp add: state_at_def)

lemma state_at_Suc:
  "state_at rem args history w (Suc k) =
     (case state_at rem args history w k of
        Inl e \<Rightarrow> Inl e
      | Inr st \<Rightarrow> iteration_body rem args k st)"
  by (simp add: state_at_def for_range_append split: sum.splits)

lemma idx_in_range:
  "0 < R \<Longrightarrow> agent_idx_of i R < R" "0 < R \<Longrightarrow> prev_idx_of i R < R"
  by (simp_all add: agent_idx_of_def prev_idx_of_def nat_less_iff)

lemma find_by_name:
  "a \<in> set xs \<Longrightarrow> \<exists>c. find (\<lambda>b. name b = name a) xs = Some c \<and> name c = name a \<and> c \<in> set xs"
  by (induction xs) auto

lemma find_distinct_names:
  "distinct (map name xs) \<Longrightarrow> a \<in> set xs \<Longrightarrow> find (\<lambda>b. name b = name a) xs = Some a"
  by (induction xs) force+

subsection \<open>Calls that are answered\<close>

lemma call_answered:
  assumes "\<forall>k p. is_response (rem k p)"
  shows "\<exists>t w'. call_gemini_api rem prompt w = (Inr t, w')"
  using assms[rule_format, of "length (requests w)" prompt]
  by (auto simp add: call_gemini_api_real is_response_def split: api_outcome.splits)

lemma quality_retry_answered:
  assumes "\<forall>k p. is_response (rem k p)"
  shows "\<exists>t w'. quality_retry rem agent_output w = (Inr t, w')"
proof (cases "evaluate_response agent_output = ''schlechte antwort''")
  case True
  from call_answered[OF assms, where prompt=retry_prompt and w=w] obtain t w' where
    "call_gemini_api rem retry_prompt w = (Inr t, w')" by blast
  then show ?thesis by (simp add: quality_retry_poor[OF True])
next
  case False
  then show ?thesis by (simp add: quality_retry_not_poor)
qed

subsection \<open>One turn\<close>

lemma turn_returns:
  assumes "turn rem args i st = Inr (out, s')"
  shows "\<exists>c y. selected_agents args \<noteq> []
     \<and> current_config args i = Some c
     \<and> length (requests (world_of st)) < length (requests (world_of s'))
     \<and> requests (world_of s') ! length (requests (world_of st)) =
         prompt_txt (conversation_topic args) i (speaker args i) (instruction c) (previous args i)
           (agent_outputs st ! prev_idx_of i (length (selected_agents args))) (personality c)
           (language args)
     \<and> chat_history s' = chat_history st @
          [user_message (speaker args i) i (conversation_topic args) (previous args i)
             (agent_outputs st ! prev_idx_of i (length (selected_agents args))),
           assistant_message (speaker args i) i out]
     \<and> agent_outputs s' = (agent_outputs st)[agent_idx_of i (length (selected_agents args)) := out]
     \<and> topic_changed s' = topic_changed st
     \<and> emitted s' = emitted st @ [y]
     \<and> y_text y = formatted_output_chunk i (speaker args i) (personality c) out
     \<and> y_discussion_id y = discussion_id args
     \<and> y_iteration y = Some (int i + 1)
     \<and> y_agent_name y = Some (speaker args i)
     \<and> y_chat_history y = chat_history s'"
proof -
  let ?R = "length (selected_agents args)"
  have ne: "selected_agents args \<noteq> []"
    using assms by (auto simp add: turn_def)
  then have R: "0 < ?R" by simp
  have nm: "map name (selected_agents args) ! agent_idx_of i ?R = speaker args i"
    "map name (selected_agents args) ! prev_idx_of i ?R = previous args i"
    using idx_in_range[OF R] by (simp_all add: speaker_def previous_def)
  obtain c where c: "find (\<lambda>a. name a = speaker args i) (selected_agents args) = Some c"
    using assms ne nm by (auto simp add: turn_def Let_def split: option.splits)
  define prompt where "prompt =
    prompt_txt (conversation_topic args) i (speaker args i) (instruction c) (previous args i)
      (agent_outputs st ! prev_idx_of i ?R) (personality c) (language args)"
  obtain first_output w1 where c1: "call_gemini_api rem prompt (world_of st) = (Inr first_output, w1)"
    using assms ne nm c
    by (auto simp add: turn_def Let_def prompt_def split: prod.splits sum.splits)
  obtain w2 where c2: "quality_retry rem first_output w1 = (Inr out, w2)"
    using assms ne nm c c1
    by (auto simp add: turn_def Let_def prompt_def split: prod.splits sum.splits)
  have w: "world_of s' = w2"
    using assms ne nm c c1 c2
    by (auto simp add: turn_def Let_def prompt_def)
  from quality_retry_returns[OF c2] obtain extra where "requests w2 = requests w1 @ extra" ..
  then have rq: "requests (world_of s') = requests (world_of st) @ prompt # extra"
    unfolding w using call_returns(1)[OF c1] by simp
  have r1: "length (requests (world_of st)) < length (requests (world_of s'))"
    unfolding rq by simp
  have r2: "requests (world_of s') ! length (requests (world_of st)) = prompt"
    unfolding rq by simp
  show ?thesis
    using assms ne nm c c1 c2 r1 r2[unfolded prompt_def]
    by (auto simp add: turn_def Let_def prompt_def[symmetric] current_config_def)
qed

lemma turn_answered:
  assumes "selected_agents args \<noteq> []" and "\<forall>k p. is_response (rem k p)"
  shows "\<exists>out s'. turn rem args i st = Inr (out, s')"
proof -
  let ?R = "length (selected_agents args)"
  have R: "0 < ?R" using assms(1) by simp
  have "selected_agents args ! agent_idx_of i ?R \<in> set (selected_agents args)"
    using idx_in_range(1)[OF R] by simp
  from find_by_name[OF this] obtain c where c:
    "find (\<lambda>b. name b = speaker args i) (selected_agents args) = Some c"
    unfolding speaker_def by blast
  have nm: "map name (selected_agents args) ! agent_idx_of i ?R = speaker args i"
    "map name (selected_agents args) ! prev_idx_of i ?R = previous args i"
    using idx_in_range[OF R] by (simp_all add: speaker_def previous_def)
  define prompt where "prompt =
    prompt_txt (conversation_topic args) i (speaker args i) (instruction c) (previous args i)
      (agent_outputs st ! prev_idx_of i ?R) (personality c) (language args)"
  from call_answered[OF assms(2), where prompt=prompt and w="world_of st"] obtain first_output w1 where
    c1: "call_gemini_api rem prompt (world_of st) = (Inr first_output, w1)" by blast
  from quality_retry_answered[OF assms(2), where agent_output=first_output and w=w1] obtain out w2 where
    c2: "quality_retry rem first_output w1 = (Inr out, w2)" by blast
  show ?thesis
    using c R nm c1 c2
    by (simp add: turn_def Let_def prompt_def[symmetric])
qed

lemma turn_empty_roster: "selected_agents args = [] \<Longrightarrow> turn rem args i st = Inl ZeroDivisionError"
  by (simp add: turn_def)

lemma stagnation_check_frame:
  "chat_history (stagnation_check args i out st) = chat_history st"
  "emitted (stagnation_check args i out st) = emitted st"
  "world_of (stagnation_check args i out st) = world_of st"
  "topic_changed (stagnation_check args i out st) = (topic_changed st \<or> stagnation_fires args i out st)"
  "agent_outputs (stagnation_check args i out st) =
     (if stagnation_fires args i out st then replicate (length (selected_agents args)) new_topic
      else agent_outputs st)"
  by (simp_all add: stagnation_check_def)

subsection \<open>The states of the loop\<close>

lemma state_at_step:
  assumes "state_at rem args history w i = Inr s" and "turn rem args i s = Inr (out, s')"
  shows "turn_at rem args history w i = Inr (out, s')"
    and "state_at rem args history w (Suc i) = Inr (stagnation_check args i out s')"
  using assms by (simp_all add: turn_at_def state_at_Suc iteration_body_def)

lemma turn_at_Inr:
  assumes "turn_at rem args history w i = Inr (out, s')"
  shows "\<exists>s. state_at rem args history w i = Inr s \<and> turn rem args i s = Inr (out, s')"
  using assms by (auto simp add: turn_at_def split: sum.splits)

lemma state_at_Suc_Inr:
  assumes "state_at rem args history w (Suc k) = Inr st"
  shows "\<exists>s out s'. state_at rem args history w k = Inr s \<and> turn rem args k s = Inr (out, s')
     \<and> st = stagnation_check args k out s'"
  using assms by (auto simp add: state_at_Suc iteration_body_def split: sum.splits prod.splits)

lemma state_at_prefix:
  assumes "j \<le> k" and "state_at rem args history w k = Inr sk"
  shows "\<exists>sj. state_at rem args history w j = Inr sj"
  using assms
proof (induction k arbitrary: sk rule: dec_induct)
  case base
  then show ?case by blast
next
  case (step n)
  from state_at_Suc_Inr[OF step.prems] obtain s where "state_at rem args history w n = Inr s"
    by blast
  from step.IH[OF this] show ?case .
qed

lemma state_at_answered:
  assumes "selected_agents args \<noteq> []" and "\<forall>k p. is_response (rem k p)"
  shows "\<exists>s. state_at rem args history w k = Inr s"
proof (induction k)
  case 0
  show ?case by (simp add: state_at_0)
next
  case (Suc k)
  then obtain s where s: "state_at rem args history w k = Inr s" by blast
  from turn_answered[OF assms, where i=k and st=s] obtain out s' where "turn rem args k s = Inr (out, s')"
    by blast
  from state_at_step(2)[OF s this] show ?case by blast
qed

lemma turn_at_answered:
  assumes "selected_agents args \<noteq> []" and "\<forall>k p. is_response (rem k p)"
  shows "\<exists>out s'. turn_at rem args history w i = Inr (out, s')"
proof -
  from state_at_answered[OF assms] obtain s where s: "state_at rem args history w i = Inr s"
    by blast
  from turn_answered[OF assms] obtain out s' where "turn rem args i s = Inr (out, s')"
    by blast
  from state_at_step(1)[OF s this] show ?thesis by blast
qed

lemma loop_invariant:
  assumes "state_at rem args history w k = Inr s"
  shows "length (agent_outputs s) = length (selected_agents args)
     \<and> length (chat_history s) = length history + 2 * k
     \<and> length (emitted s) = k"
  using assms
proof (induction k arbitrary: s)
  case 0
  then show ?case by (auto simp add: state_at_0 initial_state_def)
next
  case (Suc k)
  from state_at_Suc_Inr[OF Suc.prems] obtain s0 out s' where
    s0: "state_at rem args history w k = Inr s0" "turn rem args k s0 = Inr (out, s')"
      "s = stagnation_check args k out s'"
    by blast
  from turn_returns[OF s0(2)] obtain y where
    t2: "chat_history s' = chat_history s0 @
          [user_message (speaker args k) k (conversation_topic args) (previous args k)
             (agent_outputs s0 ! prev_idx_of k (length (selected_agents args))),
           assistant_message (speaker args k) k out]"
      "agent_outputs s' = (agent_outputs s0)[agent_idx_of k (length (selected_agents args)) := out]"
      "emitted s' = emitted s0 @ [y]"
    by blast
  show ?case
    unfolding s0(3) using Suc.IH[OF s0(1)] t2
    by (simp add: stagnation_check_frame)
qed

lemma turn_at_shape:
  assumes "turn_at rem args history w i = Inr (out, s')"
  shows "\<exists>s c y. state_at rem args history w i = Inr s
     \<and> state_at rem args history w (Suc i) = Inr (stagnation_check args i out s')
     \<and> selected_agents args \<noteq> []
     \<and> current_config args i = Some c
     \<and> prompt_at rem args history w i =
         Some (prompt_txt (conversation_topic args) i (speaker args i) (instruction c)
           (previous args i) (agent_outputs s ! prev_idx_of i (length (selected_agents args)))
           (personality c) (language args))
     \<and> length (agent_outputs s) = length (selected_agents args)
     \<and> length (chat_history s) = length history + 2 * i
     \<and> length (emitted s) = i
     \<and> chat_history s' = chat_history s @
          [user_message (speaker args i) i (conversation_topic args) (previous args i)
             (agent_outputs s ! prev_idx_of i (length (selected_agents args))),
           assistant_message (speaker args i) i out]
     \<and> agent_outputs s' = (agent_outputs s)[agent_idx_of i (length (selected_agents args)) := out]
     \<and> topic_changed s' = topic_changed s
     \<and> emitted s' = emitted s @ [y]
     \<and> y_text y = formatted_output_chunk i (speaker args i) (personality c) out
     \<and> y_discussion_id y = discussion_id args
     \<and> y_iteration y = Some (int i + 1)
     \<and> y_agent_name y = Some (speaker args i)
     \<and> y_chat_history y = chat_history s'"
proof -
  from turn_at_Inr[OF assms] obtain s where
    s: "state_at rem args history w i = Inr s" "turn rem args i s = Inr (out, s')"
    by blast
  from turn_returns[OF s(2)] obtain c y where
    t2: "selected_agents args \<noteq> []" "current_config args i = Some c"
      "requests (world_of s') ! length (requests (world_of s)) =
         prompt_txt (conversation_topic args) i (speaker args i) (instruction c) (previous args i)
           (agent_outputs s ! prev_idx_of i (length (selected_agents args))) (personality c)
           (language args)"
      "chat_history s' = chat_history s @
          [user_message (speaker args i) i (conversation_topic args) (previous args i)
             (agent_outputs s ! prev_idx_of i (length (selected_agents args))),
           assistant_message (speaker args i) i out]"
      "agent_outputs s' = (agent_outputs s)[agent_idx_of i (length (selected_agents args)) := out]"
      "topic_changed s' = topic_changed s"
      "emitted s' = emitted s @ [y]"
      "y_text y = formatted_output_chunk i (speaker args i) (personality c) out"
      "y_discussion_id y = discussion_id args"
      "y_iteration y = Some (int i + 1)"
      "y_agent_name y = Some (speaker args i)"
      "y_chat_history y = chat_history s'"
    by blast
  have p: "prompt_at rem args history w i =
         Some (prompt_txt (conversation_topic args) i (speaker args i) (instruction c)
           (previous args i) (agent_outputs s ! prev_idx_of i (length (selected_agents args)))
           (personality c) (language args))"
    by (simp add: prompt_at_def s t2(3))
  show ?thesis
    using s(1) state_at_step(2)[OF s] loop_invariant[OF s(1)] t2(1,2) p t2(4-12) by blast
qed


lemma state_at_empty_roster:
  assumes "selected_agents args = []"
  shows "state_at rem args history w (Suc k) = Inl ZeroDivisionError"
proof -
  have "[0..<Suc k] = 0 # [Suc 0..<Suc k]" by (simp add: upt_conv_Cons)
  then show ?thesis
    using assms by (simp add: state_at_def iteration_body_def turn_def)
qed

subsection \<open>The lines after the loop\<close>

lemma finish_shape:
  assumes "finish rem db args s = Inr st"
  shows "agent_outputs s \<noteq> []
     \<and> (\<exists>sum_text y. chat_history st = chat_history s @
            [summary_message sum_text, final_message (last (agent_outputs s))]
          \<and> emitted st = emitted s @ [y]
          \<and> y_text y = sum_text \<and> y_iteration y = None \<and> y_agent_name y = None
          \<and> y_chat_history y = chat_history st)"
  using assms
  by (auto simp add: finish_def Let_def split: prod.splits sum.splits if_splits)

lemma run_shape:
  assumes "joint_conversation_with_selected_agents rem db args history w = Inr st"
  shows "selected_agents args \<noteq> []
     \<and> (\<exists>s sum_text y. state_at rem args history w (nat (iterations args)) = Inr s
          \<and> chat_history st = chat_history s @
               [summary_message sum_text, final_message (last (agent_outputs s))]
          \<and> emitted st = emitted s @ [y]
          \<and> y_text y = sum_text \<and> y_iteration y = None \<and> y_agent_name y = None
          \<and> y_chat_history y = chat_history st)"
proof -
  from assms obtain s where s: "state_at rem args history w (nat (iterations args)) = Inr s"
    "finish rem db args s = Inr st"
    by (auto simp add: joint_conversation_with_selected_agents_def state_at_def split: sum.splits)
  have "selected_agents args \<noteq> []"
  proof
    assume e: "selected_agents args = []"
    show False
    proof (cases "nat (iterations args)")
      case 0
      then have "s = initial_state args history w" using s(1) by (simp add: state_at_0)
      then have "agent_outputs s = []" using e by (simp add: initial_state_def)
      then show False using finish_shape[OF s(2)] by simp
    next
      case (Suc k)
      then show False using s(1) state_at_empty_roster[OF e, of rem history w k] by simp
    qed
  qed
  then show ?thesis using s(1) finish_shape[OF s(2)] by blast
qed

lemma finish_completes:
  assumes "agent_outputs s \<noteq> []" and "db \<noteq> ConnectRaises \<or> \<not> truthy (user_state args)"
    and "\<forall>k p. is_response (rem k p)"
  shows "\<exists>st. finish rem db args s = Inr st"
proof -
  from call_answered[OF assms(3), where prompt="sum_prompt (conversation_topic args)" and w="world_of s"]
  obtain sum_text w1 where
    "call_gemini_api rem (sum_prompt (conversation_topic args)) (world_of s) = (Inr sum_text, w1)"
    by blast
  then show ?thesis
    using assms(1,2)
    by (cases db) (auto simp add: finish_def Let_def save_discussion_data_db_def split: prod.splits)
qed

text \<open>
  When every request is answered, a run with a roster that is not empty completes, unless
  a user is logged in and the database cannot be opened.
\<close>

lemma run_completes:
  assumes "selected_agents args \<noteq> []" and "db \<noteq> ConnectRaises \<or> \<not> truthy (user_state args)"
    and "\<forall>k p. is_response (rem k p)"
  shows "\<exists>st. joint_conversation_with_selected_agents rem db args history w = Inr st"
proof -
  from state_at_answered[OF assms(1,3), where history=history and w=w and k="nat (iterations args)"] obtain s where
    s: "state_at rem args history w (nat (iterations args)) = Inr s"
    by blast
  then have "agent_outputs s \<noteq> []" using assms(1) loop_invariant[OF s] by auto
  from finish_completes[OF this assms(2,3)] s(1) show ?thesis
    by (simp add: joint_conversation_with_selected_agents_def state_at_def)
qed



lemma agent_idx_int:
  "0 < R \<Longrightarrow> agent_idx_of i R = nat (int i mod int R)"
  unfolding agent_idx_of_def by (metis nat_int zmod_int)

lemma prev_idx_int:
  "0 < R \<Longrightarrow> prev_idx_of i R = nat ((int i - 1) mod int R)"
  unfolding prev_idx_of_def agent_idx_of_def by (simp add: zmod_int mod_diff_left_eq)

lemma echo_answers: "is_response (rem_echo k p)"
  by (simp add: rem_echo_def is_response_def)

lemma same_answers: "is_response (rem_same k p)"
  by (simp add: rem_same_def is_response_def)



subsection \<open>The condition of line 388\<close>

lemma fires_at_unfold:
  assumes "turn_at rem args history w i = Inr (out, s')"
  shows "\<exists>s. state_at rem args history w i = Inr s
     \<and> state_at rem args history w (Suc i) = Inr (stagnation_check args i out s')
     \<and> selected_agents args \<noteq> []
     \<and> length (agent_outputs s) = length (selected_agents args)
     \<and> agent_outputs s' = (agent_outputs s)[agent_idx_of i (length (selected_agents args)) := out]
     \<and> topic_changed s' = topic_changed s
     \<and> fires_at rem args history w i = stagnation_fires args i out s'"
proof -
  from turn_at_shape[OF assms] obtain s where
    t: "state_at rem args history w i = Inr s"
      "state_at rem args history w (Suc i) = Inr (stagnation_check args i out s')"
      "selected_agents args \<noteq> []"
      "length (agent_outputs s) = length (selected_agents args)"
      "agent_outputs s' = (agent_outputs s)[agent_idx_of i (length (selected_agents args)) := out]"
      "topic_changed s' = topic_changed s"
    by blast
  have "fires_at rem args history w i = stagnation_fires args i out s'"
    by (simp add: fires_at_def assms)
  with t show ?thesis by blast
qed


lemma solo_topic_changed:
  assumes one: "length (selected_agents args) = 1"
    and st: "state_at rem args history w k = Inr s"
  shows "topic_changed s \<longleftrightarrow> (\<exists>j<k. 3 * iterations args < 5 * int j)"
  using st
proof (induction k arbitrary: s)
  case 0
  then show ?case by (auto simp add: state_at_0 initial_state_def)
next
  case (Suc k)
  from state_at_Suc_Inr[OF Suc.prems] obtain s0 out s' where
    s0: "state_at rem args history w k = Inr s0" "turn rem args k s0 = Inr (out, s')"
      "s = stagnation_check args k out s'"
    by blast
  from turn_returns[OF s0(2)] have
    t: "agent_outputs s' = (agent_outputs s0)[agent_idx_of k (length (selected_agents args)) := out]"
      "topic_changed s' = topic_changed s0"
    by blast+
  have len: "length (agent_outputs s0) = 1" using loop_invariant[OF s0(1)] one by simp
  have ih: "topic_changed s0 \<longleftrightarrow> (\<exists>j<k. 3 * iterations args < 5 * int j)"
    by (rule Suc.IH[OF s0(1)])
  have eq: "agent_outputs s' ! prev_idx_of k 1 = out"
    unfolding t(1) one using len by (simp add: agent_idx_of_def prev_idx_of_def)
  have "topic_changed (stagnation_check args k out s')
      \<longleftrightarrow> (topic_changed s0 \<or> 3 * iterations args < 5 * int k)"
    using eq by (auto simp add: stagnation_check_frame stagnation_fires_def t(2) one)
  also have "\<dots> \<longleftrightarrow> (\<exists>j<Suc k. 3 * iterations args < 5 * int j)"
    unfolding ih by (auto simp add: less_Suc_eq)
  finally show ?case unfolding s0(3) .
qed

lemma last_slot_index:
  assumes "0 < R" and "int R dvd N" and "1 \<le> N"
  shows "agent_idx_of (nat N - 1) R = R - 1"
proof -
  from assms(2) obtain q where q: "N = int R * q" by (auto simp: dvd_def)
  have "0 < int R * q" using assms(3) q by simp
  then have "0 < q" using assms(1) by (simp add: zero_less_mult_iff)
  then have "q = int (Suc (nat q - 1))" by simp
  then obtain q' where q': "q = int (Suc q')" ..
  have "N = int (R * Suc q')" unfolding q q' by (simp add: algebra_simps)
  then have "nat N = R * Suc q'" by (simp only: nat_int)
  then have e: "nat N - 1 = R * q' + (R - 1)" using assms(1) by simp
  have "(R * q' + (R - 1)) mod R = (R - 1) mod R" by (rule mod_mult_self4)
  also have "\<dots> = R - 1" using assms(1) by (intro mod_less) simp
  finally show ?thesis unfolding agent_idx_of_def e .
qed

lemma last_list_update: "xs \<noteq> [] \<Longrightarrow> last (xs[length xs - 1 := v]) = v"
  by (cases xs rule: rev_cases) simp_all

lemma select_none:
  "select_agents agent_config_data (replicate (length agent_config_data) False) pers_vals = Inr []"
  by (induction agent_config_data arbitrary: pers_vals) simp_all

lemma empty_roster_raises:
  assumes "selected_agents args = []" and "1 \<le> iterations args"
  shows "joint_conversation_with_selected_agents rem db args history w = Inl ZeroDivisionError"
proof -
  obtain k where k: "nat (iterations args) = Suc k"
    using assms(2) by (cases "nat (iterations args)") auto
  have "state_at rem args history w (nat (iterations args)) = Inl ZeroDivisionError"
    unfolding k by (rule state_at_empty_roster[OF assms(1)])
  then show ?thesis
    by (simp add: joint_conversation_with_selected_agents_def state_at_def)
qed

section \<open>Scheduling and the transcript\<close>

text \<open>
  Claim C1, as amended. Let iteration \<open>k\<close> (counted from 1, \<open>1 \<le> k \<le> N\<close>) reach its
  \<open>yield\<close>, whatever happens to the run afterwards. The roster is not empty. The turn is
  spoken under the name of \<open>roster[(k - 1) mod R]\<close> and with the personality and the
  instruction of \<open>c\<close>, the first roster entry that bears this name; \<open>c\<close> is
  \<open>roster[(k - 1) mod R]\<close> itself when the names of the roster are pairwise distinct. The
  previous agent is \<open>roster[(k - 2) mod R]\<close> and the previous output is the content of
  window slot \<open>(k - 2) mod R\<close> at the start of the iteration, which in iteration 1 is the
  initial empty string. These are what the prompt sent to the service and the transcript
  entry that opens the turn are built of; the reply is stored in window slot
  \<open>(k - 1) mod R\<close>; and the tuple yielded, the \<open>k\<close>-th of the run, carries the number \<open>k\<close>,
  the speaker's name and the personality of \<open>c\<close>.
\<close>

theorem round_robin_turn:
  assumes k: "1 \<le> k" "k \<le> iterations args"
    and t: "turn_at rem args history w (nat (k - 1)) = Inr (agent_output, s')"
  shows "\<exists>s c y.
       state_at rem args history w (nat (k - 1)) = Inr s
     \<and> 1 \<le> length (selected_agents args)
     \<and> find (\<lambda>a. name a = name (roster_at args (k - 1))) (selected_agents args) = Some c
     \<and> (distinct (map name (selected_agents args)) \<longrightarrow> c = roster_at args (k - 1))
     \<and> (k = 1 \<longrightarrow> agent_outputs s ! slot_of args (k - 2) = [])
     \<and> prompt_at rem args history w (nat (k - 1)) =
         Some (prompt_txt (conversation_topic args) (nat (k - 1)) (name (roster_at args (k - 1)))
           (instruction c) (name (roster_at args (k - 2)))
           (agent_outputs s ! slot_of args (k - 2)) (personality c) (language args))
     \<and> length (chat_history s) = length history + 2 * nat (k - 1)
     \<and> chat_history s' = chat_history s @
         [user_message (name (roster_at args (k - 1))) (nat (k - 1)) (conversation_topic args)
            (name (roster_at args (k - 2))) (agent_outputs s ! slot_of args (k - 2)),
          assistant_message (name (roster_at args (k - 1))) (nat (k - 1)) agent_output]
     \<and> agent_outputs s' = (agent_outputs s)[slot_of args (k - 1) := agent_output]
     \<and> length (emitted s) = nat (k - 1)
     \<and> emitted s' = emitted s @ [y]
     \<and> y_iteration y = Some k
     \<and> y_agent_name y = Some (name (roster_at args (k - 1)))
     \<and> y_text y = formatted_output_chunk (nat (k - 1)) (name (roster_at args (k - 1)))
         (personality c) agent_output"
proof -
  let ?R = "length (selected_agents args)"
  define i where "i = nat (k - 1)"
  have i: "int i = k - 1" using k by (simp add: i_def)
  from turn_at_shape[OF t[folded i_def]] obtain s c y where
    s: "state_at rem args history w i = Inr s"
      "selected_agents args \<noteq> []"
      "current_config args i = Some c"
      "prompt_at rem args history w i =
         Some (prompt_txt (conversation_topic args) i (speaker args i) (instruction c)
           (previous args i) (agent_outputs s ! prev_idx_of i ?R)
           (personality c) (language args))"
      "length (agent_outputs s) = ?R"
      "length (chat_history s) = length history + 2 * i"
      "length (emitted s) = i"
      "chat_history s' = chat_history s @
          [user_message (speaker args i) i (conversation_topic args) (previous args i)
             (agent_outputs s ! prev_idx_of i ?R),
           assistant_message (speaker args i) i agent_output]"
      "agent_outputs s' = (agent_outputs s)[agent_idx_of i ?R := agent_output]"
      "emitted s' = emitted s @ [y]"
      "y_text y = formatted_output_chunk i (speaker args i) (personality c) agent_output"
      "y_iteration y = Some (int i + 1)"
      "y_agent_name y = Some (speaker args i)"
    by blast
  have R: "0 < ?R" using s(2) by simp
  have ai: "agent_idx_of i ?R = slot_of args (k - 1)"
    unfolding agent_idx_int[OF R] i slot_of_def ..
  have pi: "prev_idx_of i ?R = slot_of args (k - 2)"
    unfolding prev_idx_int[OF R] i slot_of_def by (simp add: algebra_simps)
  have sp: "speaker args i = name (roster_at args (k - 1))"
    unfolding speaker_def roster_at_def ai ..
  have pr: "previous args i = name (roster_at args (k - 2))"
    unfolding previous_def roster_at_def pi ..
  have mem: "roster_at args (k - 1) \<in> set (selected_agents args)"
    unfolding roster_at_def ai[symmetric] using idx_in_range(1)[OF R, of i] by simp
  have c: "find (\<lambda>a. name a = name (roster_at args (k - 1))) (selected_agents args) = Some c"
    using s(3) unfolding current_config_def sp .
  have d: "distinct (map name (selected_agents args)) \<longrightarrow> c = roster_at args (k - 1)"
  proof
    assume "distinct (map name (selected_agents args))"
    from find_distinct_names[OF this mem] c show "c = roster_at args (k - 1)" by simp
  qed
  have first: "k = 1 \<longrightarrow> agent_outputs s ! slot_of args (k - 2) = []"
  proof
    assume "k = 1"
    then have "i = 0" by (simp add: i_def)
    then have "s = initial_state args history w" using s(1) by (simp add: state_at_0)
    then have "agent_outputs s = replicate ?R []" by (simp add: initial_state_def)
    moreover have "slot_of args (k - 2) < ?R"
      using idx_in_range(2)[OF R, of i] unfolding pi .
    ultimately show "agent_outputs s ! slot_of args (k - 2) = []" by simp
  qed
  have one: "1 \<le> ?R" using R by linarith
  have yk: "y_iteration y = Some k" using s(12) i by simp
  show ?thesis
    using s(1) one c d first s(4,6,8,9,7,10) yk s(13,11)
    unfolding sp pr pi ai i_def[symmetric]
    by blast
qed

text \<open>
  The witness: roster A, B and iteration 2. It is spoken by B, with B's instruction and
  personality, after A, and its tuple is the second of the run.
\<close>

theorem round_robin_turn_witness:
  "(1::int) \<le> 2 \<and> 2 \<le> iterations args_duo
   \<and> (case turn_at rem_echo args_duo [] world0 1 of
        Inl e \<Rightarrow> False
      | Inr (agent_output, s') \<Rightarrow>
          (\<exists>prev_output.
              prompt_at rem_echo args_duo [] world0 1 =
                Some (prompt_txt ''X'' 1 ''B'' ''Ergaenze.'' ''A'' prev_output ''neutral'' ''Englisch'')
            \<and> chat_history s' =
                take 2 (chat_history s') @
                [user_message ''B'' 1 ''X'' ''A'' prev_output, assistant_message ''B'' 1 agent_output])
        \<and> length (emitted s') = 2
        \<and> y_iteration (emitted s' ! 1) = Some 2
        \<and> y_agent_name (emitted s' ! 1) = Some ''B'')"
proof -
  have n: "iterations args_duo = 3" "selected_agents args_duo = [agent_A, agent_B]"
    "conversation_topic args_duo = ''X''" "language args_duo = ''Englisch''"
    by (simp_all add: args_duo_def)
  have k: "(1::int) \<le> 2" "(2::int) \<le> iterations args_duo" by (simp_all add: n)
  have ne: "selected_agents args_duo \<noteq> []" by (simp add: n)
  have ans: "\<forall>k p. is_response (rem_echo k p)" by (simp add: echo_answers)
  from turn_at_answered[OF ne ans] obtain agent_output s' where
    t: "turn_at rem_echo args_duo [] world0 1 = Inr (agent_output, s')" by blast
  have t': "turn_at rem_echo args_duo [] world0 (nat (2 - 1)) = Inr (agent_output, s')"
    using t by simp
  have r: "roster_at args_duo (2 - 1) = agent_B" "roster_at args_duo (2 - 2) = agent_A"
    "slot_of args_duo (2 - 2) = 0" "nat (2 - 1) = 1"
    by (simp_all add: roster_at_def slot_of_def n)
  have d: "distinct (map name [agent_A, agent_B])"
    by (simp add: agent_A_def agent_B_def)
  from round_robin_turn[OF k t', unfolded r n] d obtain s c y where
    c: "c = agent_B"
    and s: "state_at rem_echo args_duo [] world0 1 = Inr s"
    and f0: "prompt_at rem_echo args_duo [] world0 1 =
         Some (prompt_txt ''X'' 1 (name agent_B) (instruction c) (name agent_A)
           (agent_outputs s ! 0) (personality c) ''Englisch'')"
      "length (chat_history s) = length ([]::message list) + 2 * 1"
      "chat_history s' = chat_history s @
         [user_message (name agent_B) 1 ''X'' (name agent_A) (agent_outputs s ! 0),
          assistant_message (name agent_B) 1 agent_output]"
      "length (emitted s) = 1"
      "emitted s' = emitted s @ [y]"
      "y_iteration y = Some 2"
      "y_agent_name y = Some (name agent_B)"
    by blast
  note f = f0[unfolded c]
  have nm: "name agent_B = ''B''" "name agent_A = ''A''" "instruction agent_B = ''Ergaenze.''"
    "personality agent_B = ''neutral''"
    by (simp_all add: agent_A_def agent_B_def)
  have tk: "take 2 (chat_history s') = chat_history s"
    unfolding f(3) using f(2) by simp
  have e: "length (emitted s') = 2" "emitted s' ! 1 = y"
    unfolding f(5) using f(4) by (simp_all add: nth_append)
  have p: "\<exists>prev_output.
              prompt_at rem_echo args_duo [] world0 1 =
                Some (prompt_txt ''X'' 1 ''B'' ''Ergaenze.'' ''A'' prev_output ''neutral'' ''Englisch'')
            \<and> chat_history s' =
                take 2 (chat_history s') @
                [user_message ''B'' 1 ''X'' ''A'' prev_output, assistant_message ''B'' 1 agent_output]"
    unfolding tk using f(1,3) unfolding nm by blast
  have y2: "y_iteration (emitted s' ! 1) = Some 2" unfolding e(2) by (rule f(6))
  have y3: "y_agent_name (emitted s' ! 1) = Some ''B''" unfolding e(2) using f(7) unfolding nm .
  show ?thesis
    unfolding t sum.case prod.case by (intro conjI k p e(1) y2 y3)
qed

text \<open>
  The claim as written fails for a roster in which a name occurs twice. Roster
  \<open>[agent_A, agent_A2]\<close>: both entries are named A, the first is critical with the
  instruction \<open>Pruefe.\<close>, the second neutral with the instruction \<open>Traeume.\<close>. Iteration 2
  belongs to \<open>roster[1]\<close>, but line 327 finds \<open>roster[0]\<close>: the prompt carries the
  instruction and the personality of the first entry, and so does the text yielded.
\<close>

theorem twin_names_speak_as_first_entry:
  "roster_at args_twins (2 - 1) = agent_A2
   \<and> instruction agent_A2 = ''Traeume.'' \<and> personality agent_A2 = ''neutral''
   \<and> current_config args_twins 1 = Some agent_A
   \<and> agent_A \<noteq> agent_A2
   \<and> prompt_at rem_echo args_twins [] world0 1 =
       Some (prompt_txt ''X'' 1 ''A'' ''Pruefe.'' ''A'' ''Beitrag 0'' ''kritisch'' ''Englisch'')
   \<and> prompt_at rem_echo args_twins [] world0 1 \<noteq>
       Some (prompt_txt ''X'' 1 ''A'' ''Traeume.'' ''A'' ''Beitrag 0'' ''neutral'' ''Englisch'')
   \<and> (case turn_at rem_echo args_twins [] world0 1 of
        Inl e \<Rightarrow> False
      | Inr (agent_output, s') \<Rightarrow>
          y_text (last (emitted s')) = formatted_output_chunk 1 ''A'' ''kritisch'' agent_output)"
  by code_simp



section \<open>The stagnation injection\<close>



text \<open>
  Claim C10. Take a roster of one agent and an iteration \<open>i\<close> of the run (0-based,
  \<open>i < N\<close>) that reaches its \<open>yield\<close>. The previous-agent slot is the agent's own slot
  (\<open>agent_idx = prev_idx = 0\<close>) and holds the output just stored, so the comparison of
  line 388 is an equality whatever the agent said. The condition holds in iteration \<open>i\<close>
  exactly when \<open>i\<close> is the first 0-based index that exceeds \<open>0.6 * N\<close>; and then the
  iteration ends with the topic-shift string in the window, otherwise with the agent's
  output in it.
\<close>

theorem solo_roster_injection:
  assumes one: "length (selected_agents args) = 1"
    and i: "int i < iterations args"
    and t: "turn_at rem args history w i = Inr (agent_output, s')"
  shows "agent_idx_of i (length (selected_agents args)) = 0
     \<and> prev_idx_of i (length (selected_agents args)) = 0
     \<and> agent_outputs s' = [agent_output]
     \<and> agent_outputs s' ! prev_idx_of i (length (selected_agents args)) = agent_output
     \<and> (fires_at rem args history w i \<longleftrightarrow>
          (3 * iterations args < 5 * int i \<and> (\<forall>j<i. \<not> 3 * iterations args < 5 * int j)))
     \<and> (\<exists>st. state_at rem args history w (Suc i) = Inr st
          \<and> agent_outputs st =
              (if 3 * iterations args < 5 * int i \<and> (\<forall>j<i. \<not> 3 * iterations args < 5 * int j)
               then [new_topic] else [agent_output])
          \<and> (topic_changed st \<longleftrightarrow> (\<exists>j\<le>i. 3 * iterations args < 5 * int j)))"
proof -
  from fires_at_unfold[OF t] obtain s where
    u: "state_at rem args history w i = Inr s"
      "state_at rem args history w (Suc i) = Inr (stagnation_check args i agent_output s')"
      "length (agent_outputs s) = length (selected_agents args)"
      "agent_outputs s' = (agent_outputs s)[agent_idx_of i (length (selected_agents args)) := agent_output]"
      "topic_changed s' = topic_changed s"
      "fires_at rem args history w i = stagnation_fires args i agent_output s'"
    by blast
  have idx: "agent_idx_of i (length (selected_agents args)) = 0"
    "prev_idx_of i (length (selected_agents args)) = 0"
    unfolding one by (simp_all add: agent_idx_of_def prev_idx_of_def)
  have len: "length (agent_outputs s) = 1" using u(3) one by simp
  then obtain x where x: "agent_outputs s = [x]"
    by (cases "agent_outputs s") simp_all
  have win: "agent_outputs s' = [agent_output]"
    unfolding u(4) idx x by simp
  have eq: "agent_outputs s' ! prev_idx_of i (length (selected_agents args)) = agent_output"
    unfolding idx win by simp
  have tc: "topic_changed s \<longleftrightarrow> (\<exists>j<i. 3 * iterations args < 5 * int j)"
    by (rule solo_topic_changed[OF one u(1)])
  have sf: "stagnation_fires args i agent_output s' \<longleftrightarrow>
      (3 * iterations args < 5 * int i \<and> (\<forall>j<i. \<not> 3 * iterations args < 5 * int j))"
    unfolding stagnation_fires_def u(5) tc using eq by auto
  have f: "fires_at rem args history w i \<longleftrightarrow>
      (3 * iterations args < 5 * int i \<and> (\<forall>j<i. \<not> 3 * iterations args < 5 * int j))"
    unfolding u(6) by (rule sf)
  have after: "agent_outputs (stagnation_check args i agent_output s') =
      (if 3 * iterations args < 5 * int i \<and> (\<forall>j<i. \<not> 3 * iterations args < 5 * int j)
       then [new_topic] else [agent_output])"
    unfolding stagnation_check_frame sf win one by auto
  have flag: "topic_changed (stagnation_check args i agent_output s') \<longleftrightarrow>
      (\<exists>j\<le>i. 3 * iterations args < 5 * int j)"
    by (rule solo_topic_changed[OF one u(2), unfolded less_Suc_eq_le])
  show ?thesis
    using idx win eq f u(2) after flag by blast
qed

text \<open>
  The witness: one agent, three iterations, a different text in every reply. The
  condition holds in iteration \<open>i = 2\<close>, the first index above 1.8, although the reply
  \<open>Beitrag 2\<close> repeats nothing, and the window then holds the topic-shift string; it does
  not hold in iteration \<open>i = 1\<close>, after which the window holds the reply.
\<close>

theorem solo_roster_injection_witness:
  "length (selected_agents args_solo3) = 1 \<and> int 2 < iterations args_solo3
   \<and> output_at rem_echo args_solo3 [] world0 2 = Some ''Beitrag 2''
   \<and> fires_at rem_echo args_solo3 [] world0 2
   \<and> (\<exists>st. state_at rem_echo args_solo3 [] world0 3 = Inr st \<and> agent_outputs st = [new_topic])
   \<and> \<not> fires_at rem_echo args_solo3 [] world0 1
   \<and> (\<exists>st. state_at rem_echo args_solo3 [] world0 2 = Inr st \<and> agent_outputs st = [''Beitrag 1''])"
proof -
  have one: "length (selected_agents args_solo3) = 1" by (simp add: args_solo3_def)
  have n: "iterations args_solo3 = 3" by (simp add: args_solo3_def)
  have i2: "int 2 < iterations args_solo3" and i1: "int 1 < iterations args_solo3"
    by (simp_all add: n)
  have o2: "output_at rem_echo args_solo3 [] world0 2 = Some ''Beitrag 2''" by code_simp
  have o1: "output_at rem_echo args_solo3 [] world0 1 = Some ''Beitrag 1''" by code_simp
  from o2 obtain s2 where t2: "turn_at rem_echo args_solo3 [] world0 2 = Inr (''Beitrag 2'', s2)"
    by (auto simp add: output_at_def split: sum.splits)
  from o1 obtain s1 where t1: "turn_at rem_echo args_solo3 [] world0 1 = Inr (''Beitrag 1'', s1)"
    by (auto simp add: output_at_def split: sum.splits)
  have a: "3 * (3::int) < 5 * int 2 \<and> (\<forall>j<2. \<not> 3 * (3::int) < 5 * int j)"
    by (simp add: less_Suc_eq eval_nat_numeral)
  have b: "\<not> (3 * (3::int) < 5 * int 1 \<and> (\<forall>j<1. \<not> 3 * (3::int) < 5 * int j))" by simp
  have three: "Suc 2 = 3" "Suc 1 = 2" by simp_all
  note r2 = solo_roster_injection[OF one i2 t2, unfolded n three]
  note r1 = solo_roster_injection[OF one i1 t1, unfolded n three]
  from r2 a have f2: "fires_at rem_echo args_solo3 [] world0 2" by blast
  from r1 b have f1: "\<not> fires_at rem_echo args_solo3 [] world0 1" by blast
  from r2 have "\<exists>st. state_at rem_echo args_solo3 [] world0 3 = Inr st
      \<and> agent_outputs st = (if 3 * (3::int) < 5 * int 2 \<and> (\<forall>j<2. \<not> 3 * (3::int) < 5 * int j)
               then [new_topic] else [''Beitrag 2''])"
    by blast
  then have st3: "\<exists>st. state_at rem_echo args_solo3 [] world0 3 = Inr st \<and> agent_outputs st = [new_topic]"
    unfolding if_P[OF a] .
  from r1 have "\<exists>st. state_at rem_echo args_solo3 [] world0 2 = Inr st
      \<and> agent_outputs st = (if 3 * (3::int) < 5 * int 1 \<and> (\<forall>j<1. \<not> 3 * (3::int) < 5 * int j)
               then [new_topic] else [''Beitrag 1''])"
    by blast
  then have st2: "\<exists>st. state_at rem_echo args_solo3 [] world0 2 = Inr st \<and> agent_outputs st = [''Beitrag 1'']"
    unfolding if_not_P[OF b] .
  from one i2 o2 f2 st3 f1 st2 show ?thesis by (intro conjI)
qed

section \<open>The final statement\<close>

text \<open>
  Claim C7, as amended. The final-statement entry of a completed run holds
  \<open>agent_outputs[-1]\<close>: the window slot of the agent at the last roster position, as
  it stands after the loop. When the iteration count is at least 1 and a multiple of
  the roster size, and the stagnation injection did not fire in the last iteration, that
  is the output of the last iteration, the text most recently produced by the agent who
  spoke last. When the injection fired in the last iteration it is the topic-shift
  string.
\<close>

theorem final_statement_slot:
  assumes run: "joint_conversation_with_selected_agents rem db args history w = Inr st"
  shows "(\<exists>s. state_at rem args history w (nat (iterations args)) = Inr s
          \<and> last (chat_history st) = final_message (last (agent_outputs s)))
     \<and> (1 \<le> iterations args \<and> int (length (selected_agents args)) dvd iterations args
          \<and> \<not> fires_at rem args history w (nat (iterations args) - 1)
        \<longrightarrow> (\<exists>agent_output. output_at rem args history w (nat (iterations args) - 1) = Some agent_output
              \<and> last (chat_history st) = final_message agent_output))
     \<and> (1 \<le> iterations args \<and> fires_at rem args history w (nat (iterations args) - 1)
        \<longrightarrow> last (chat_history st) = final_message new_topic)"
proof -
  let ?R = "length (selected_agents args)"
  let ?N = "nat (iterations args)"
  from run_shape[OF run] obtain sN sum_text where
    r: "selected_agents args \<noteq> []" "state_at rem args history w ?N = Inr sN"
      "chat_history st = chat_history sN @
               [summary_message sum_text, final_message (last (agent_outputs sN))]"
    by blast
  have R: "0 < ?R" using r(1) by simp
  have l: "last (chat_history st) = final_message (last (agent_outputs sN))"
    unfolding r(3) by simp
  have last_turn: "\<exists>s out s'. turn_at rem args history w (?N - 1) = Inr (out, s')
      \<and> sN = stagnation_check args (?N - 1) out s'
      \<and> length (agent_outputs (s::run_state)) = ?R
      \<and> agent_outputs s' = (agent_outputs s)[agent_idx_of (?N - 1) ?R := out]
      \<and> fires_at rem args history w (?N - 1) = stagnation_fires args (?N - 1) out s'"
    if n: "1 \<le> iterations args"
  proof -
    have "Suc (?N - 1) = ?N" using n by simp
    then have "state_at rem args history w (Suc (?N - 1)) = Inr sN" using r(2) by simp
    from state_at_Suc_Inr[OF this] obtain s0 out s' where
      s0: "state_at rem args history w (?N - 1) = Inr s0" "turn rem args (?N - 1) s0 = Inr (out, s')"
        "sN = stagnation_check args (?N - 1) out s'"
      by blast
    have ta: "turn_at rem args history w (?N - 1) = Inr (out, s')"
      by (rule state_at_step(1)[OF s0(1,2)])
    from fires_at_unfold[OF ta] obtain s where
      "length (agent_outputs (s::run_state)) = ?R"
      "agent_outputs s' = (agent_outputs s)[agent_idx_of (?N - 1) ?R := out]"
      "fires_at rem args history w (?N - 1) = stagnation_fires args (?N - 1) out s'"
      by blast
    with ta s0(3) show ?thesis by blast
  qed
  have quiet: "\<exists>agent_output. output_at rem args history w (?N - 1) = Some agent_output
      \<and> last (chat_history st) = final_message agent_output"
    if n: "1 \<le> iterations args" and d: "int ?R dvd iterations args"
      and nf: "\<not> fires_at rem args history w (?N - 1)"
  proof -
    from last_turn[OF n] obtain s out s' where
      t: "turn_at rem args history w (?N - 1) = Inr (out, s')"
        "sN = stagnation_check args (?N - 1) out s'"
        "length (agent_outputs (s::run_state)) = ?R"
        "agent_outputs s' = (agent_outputs s)[agent_idx_of (?N - 1) ?R := out]"
        "fires_at rem args history w (?N - 1) = stagnation_fires args (?N - 1) out s'"
      by blast
    have o: "output_at rem args history w (?N - 1) = Some out"
      unfolding output_at_def t(1) by simp
    have "agent_outputs sN = (agent_outputs s)[?R - 1 := out]"
      unfolding t(2) using nf t(5) last_slot_index[OF R d n]
      by (simp add: stagnation_check_frame t(4))
    moreover have "agent_outputs s \<noteq> []" using t(3) R by auto
    ultimately have "last (agent_outputs sN) = out"
      using last_list_update[of "agent_outputs s" out] t(3) by simp
    then have "last (chat_history st) = final_message out" unfolding l by simp
    with o show ?thesis by blast
  qed
  have fired: "last (chat_history st) = final_message new_topic"
    if n: "1 \<le> iterations args" and f: "fires_at rem args history w (?N - 1)"
  proof -
    from last_turn[OF n] obtain s out s' where
      t: "sN = stagnation_check args (?N - 1) out s'"
        "length (agent_outputs (s::run_state)) = ?R"
        "fires_at rem args history w (?N - 1) = stagnation_fires args (?N - 1) out s'"
      by blast
    have "agent_outputs sN = replicate ?R new_topic"
      unfolding t(1) using f t(3) by (simp add: stagnation_check_frame)
    then have "last (agent_outputs sN) = new_topic" using R by simp
    then show ?thesis unfolding l by simp
  qed
  show ?thesis
    using r(2) l quiet fired by blast
qed

text \<open>
  The witness: roster A, B and two iterations. B speaks last, nothing fires, and the
  final statement is B's reply.
\<close>

theorem final_statement_slot_witness:
  "last (transcript_of (joint_conversation_with_selected_agents rem_echo DbWorks args_duo2 [] world0))
     = final_message ''Beitrag 1''
   \<and> output_at rem_echo args_duo2 [] world0 1 = Some ''Beitrag 1''
   \<and> \<not> fires_at rem_echo args_duo2 [] world0 1"
proof -
  obtain st where run: "joint_conversation_with_selected_agents rem_echo DbWorks args_duo2 [] world0 = Inr st"
    using run_completes[where args=args_duo2 and db=DbWorks and rem=rem_echo and history="[]"
        and w=world0]
    by (auto simp add: args_duo2_def args_duo_def echo_answers)
  have n: "iterations args_duo2 = 2" "length (selected_agents args_duo2) = 2"
    by (simp_all add: args_duo2_def args_duo_def)
  have i: "nat (2::int) - 1 = 1" by simp
  have nf: "\<not> fires_at rem_echo args_duo2 [] world0 1" by code_simp
  have o: "output_at rem_echo args_duo2 [] world0 1 = Some ''Beitrag 1''" by code_simp
  have h: "(1::int) \<le> 2 \<and> int 2 dvd (2::int) \<and> \<not> fires_at rem_echo args_duo2 [] world0 1"
    using nf by simp
  note inst = final_statement_slot[OF run, unfolded n i]
  from inst h have "\<exists>agent_output. output_at rem_echo args_duo2 [] world0 1 = Some agent_output
       \<and> last (chat_history st) = final_message agent_output"
    by blast
  then have "last (chat_history st) = final_message ''Beitrag 1''" unfolding o by simp
  then show ?thesis using o nf unfolding run transcript_of_def by simp
qed

text \<open>
  The counterexample to C7 as stated: roster A, B and three iterations. A speaks last
  (iteration 3, reply \<open>Beitrag 2\<close>), but the final statement is the reply B gave in
  iteration 2.
\<close>

theorem final_statement_not_last_speaker:
  "transcript_of (joint_conversation_with_selected_agents rem_echo DbWorks args_duo [] world0) ! 5
     = assistant_message ''A'' 2 ''Beitrag 2''
   \<and> last (transcript_of (joint_conversation_with_selected_agents rem_echo DbWorks args_duo [] world0))
     = final_message ''Beitrag 1''"
  by code_simp

section \<open>An empty selection\<close>

text \<open>
  Claim C8. When no checkbox is ticked, the roster built by \<open>process_input_custom_agents\<close>
  is empty and the callback yields one validation message and returns: the conversation
  is not started, and the world is the one it was given, with no request sent and no row
  written.
\<close>

theorem empty_selection_rejected:
  assumes "cbox_vals = replicate (length agent_config_data) False"
  shows "process_input_custom_agents rem db now agent_config_data user_topic history rs
           current_usr_state cbox_vals pers_vals iters level lang discussion_id_state w
         = Inr ([NoSelection msg_no_agents [] discussion_id_state False rs], w)"
  unfolding process_input_custom_agents_def assms select_none by simp

text \<open>
  The witness: two configured agents, neither ticked, a logged-in user.
\<close>

theorem empty_selection_rejected_witness:
  "process_input_custom_agents rem_echo DbWorks ''20250101_120000'' config_two ''X'' [] no_rating
     (Some ''uta'') [False, False] [''kritisch'', ''neutral''] 20 ''Experte'' ''Deutsch'' None world0
   = Inr ([NoSelection msg_no_agents [] None False no_rating], world0)
   \<and> requests world0 = [] \<and> discussions world0 = []"
proof -
  have "[False, False] = replicate (length config_two) False"
    by (simp add: config_two_def eval_nat_numeral)
  from empty_selection_rejected[OF this] show ?thesis
    by (simp add: world0_def)
qed

section \<open>Persistence failures\<close>

text \<open>
  Lemma \<open>run_completes\<close> above: with a roster that is not empty and a service that
  answers every request, the run completes, provided that the database can be opened or
  nobody is logged in. A failure of \<open>execute\<close> or \<open>commit\<close> is absorbed.
\<close>

text \<open>
  Claim C5 (the code departs from it). With a logged-in user and a database that cannot be
  opened, \<open>sqlite3.connect\<close> raises before the \<open>try\<close> of \<open>save_discussion_data_db\<close>;
  the exception leaves the generator after the summary call, and the run does not
  complete.
\<close>

theorem connect_error_leaves_run:
  "joint_conversation_with_selected_agents rem_echo ConnectRaises args_solo [] world0 = Inl SqliteError"
  by code_simp

end
